theory Spec2Isabelle
  imports Main "HOL-Library.Sublist" "HOL-Library.AList"
begin

section \<open>Strings\<close>

text \<open>
  JavaScript strings are modelled as \<^typ>\<open>string\<close>, one \<^typ>\<open>char\<close> per UTF-16 code unit:
  the model covers the strings whose code units are at most 0xFF.
  \<open>includes_str s sub\<close> is \<^verbatim>\<open>s.includes(sub)\<close>: \<open>sub\<close> occurs in \<open>s\<close> as a contiguous run.
\<close>

fun includes_str :: "string \<Rightarrow> string \<Rightarrow> bool" where
  "includes_str [] sub = (sub = [])"
| "includes_str (c # cs) sub = (prefix sub (c # cs) \<or> includes_str cs sub)"

text \<open>
  \<^verbatim>\<open>String.prototype.toLowerCase\<close> on these code units: the letters A to Z and the
  upper-case letters 0xC0 to 0xDE (without the multiplication sign 0xD7) move up by 0x20;
  every other code unit stays.
\<close>

definition lowerChar :: "char \<Rightarrow> char" where
  "lowerChar c =
     (case map_of
        (zip (''ABCDEFGHIJKLMNOPQRSTUVWXYZ'' @
              [CHR 0xC0, CHR 0xC1, CHR 0xC2, CHR 0xC3, CHR 0xC4, CHR 0xC5, CHR 0xC6, CHR 0xC7,
               CHR 0xC8, CHR 0xC9, CHR 0xCA, CHR 0xCB, CHR 0xCC, CHR 0xCD, CHR 0xCE, CHR 0xCF,
               CHR 0xD0, CHR 0xD1, CHR 0xD2, CHR 0xD3, CHR 0xD4, CHR 0xD5, CHR 0xD6, CHR 0xD8,
               CHR 0xD9, CHR 0xDA, CHR 0xDB, CHR 0xDC, CHR 0xDD, CHR 0xDE])
             (''abcdefghijklmnopqrstuvwxyz'' @
              [CHR 0xE0, CHR 0xE1, CHR 0xE2, CHR 0xE3, CHR 0xE4, CHR 0xE5, CHR 0xE6, CHR 0xE7,
               CHR 0xE8, CHR 0xE9, CHR 0xEA, CHR 0xEB, CHR 0xEC, CHR 0xED, CHR 0xEE, CHR 0xEF,
               CHR 0xF0, CHR 0xF1, CHR 0xF2, CHR 0xF3, CHR 0xF4, CHR 0xF5, CHR 0xF6, CHR 0xF8,
               CHR 0xF9, CHR 0xFA, CHR 0xFB, CHR 0xFC, CHR 0xFD, CHR 0xFE])) c of
        Some l \<Rightarrow> l
      | None \<Rightarrow> c)"

definition toLowerCase :: "string \<Rightarrow> string" where
  "toLowerCase s = map lowerChar s"

section \<open>RateLimiter\<close>

text \<open>
  A thrown value as the retry loop and the migrator read it: \<^verbatim>\<open>error.message\<close>,
  \<^verbatim>\<open>error.stack\<close> and \<^verbatim>\<open>error.response?.status\<close>, each possibly undefined.
\<close>

record js_error =
  message :: "string option"
  stack :: "string option"
  responseStatus :: "int option"

record rate_limiter =
  maxRetries :: nat
  baseDelay :: int

text \<open>
  What one call of \<^verbatim>\<open>executeWithRetry\<close> does, in order: an invocation of the wrapped
  function (numbered from 0), the warning logged before a retry, and a sleep of the given
  number of milliseconds.
\<close>

datatype retry_event = Invoke nat | RetryWarn nat | Sleep int

text \<open>
  \<^verbatim>\<open>error.response?.status === 429 || error.message?.includes('rate limit') ||
  error.message?.includes('too many requests')\<close>
\<close>

definition isRateLimit :: "js_error \<Rightarrow> bool" where
  "isRateLimit error =
     (responseStatus error = Some 429
      \<or> (case message error of Some m \<Rightarrow> includes_str m ''rate limit'' | None \<Rightarrow> False)
      \<or> (case message error of Some m \<Rightarrow> includes_str m ''too many requests'' | None \<Rightarrow> False))"

text \<open>\<^verbatim>\<open>error.response?.status < 500\<close>; the comparison is false when there is no status.\<close>

definition statusBelow500 :: "js_error \<Rightarrow> bool" where
  "statusBelow500 error = (case responseStatus error of Some s \<Rightarrow> s < 500 | None \<Rightarrow> False)"

text \<open>
  The loop of \<^verbatim>\<open>executeWithRetry\<close>. \<open>fn k\<close> is the outcome of the invocation made at
  attempt \<open>k\<close>: \<open>Inr\<close> a result, \<open>Inl\<close> the thrown error. The loop variable \<open>lastError\<close> is
  undefined (\<open>None\<close>) until the first failure, and \<^verbatim>\<open>throw lastError\<close> is the result
  \<open>Inl lastError\<close>. The delay is \<^verbatim>\<open>this.baseDelay * Math.pow(2, attempt)\<close>.
\<close>

function executeWithRetry_loop ::
  "rate_limiter \<Rightarrow> (nat \<Rightarrow> js_error + 'a) \<Rightarrow> nat \<Rightarrow> js_error option \<Rightarrow> retry_event list
     \<Rightarrow> (js_error option + 'a) \<times> retry_event list" where
  "executeWithRetry_loop rl fn attempt lastError tr =
     (if attempt \<le> maxRetries rl then
        (case fn attempt of
           Inr v \<Rightarrow> (Inr v, tr @ [Invoke attempt])
         | Inl error \<Rightarrow>
             if attempt = maxRetries rl then (Inl (Some error), tr @ [Invoke attempt])
             else if \<not> isRateLimit error \<and> statusBelow500 error
               then (Inl (Some error), tr @ [Invoke attempt])
             else executeWithRetry_loop rl fn (attempt + 1) (Some error)
                    (tr @ [Invoke attempt, RetryWarn attempt,
                           Sleep (baseDelay rl * 2 ^ attempt)]))
      else (Inl lastError, tr))"
  by pat_completeness auto
termination
  by (relation "measure (\<lambda>(rl, fn, attempt, lastError, tr). Suc (maxRetries rl) - attempt)") auto

declare executeWithRetry_loop.simps [simp del]

definition executeWithRetry ::
  "rate_limiter \<Rightarrow> (nat \<Rightarrow> js_error + 'a) \<Rightarrow> (js_error option + 'a) \<times> retry_event list" where
  "executeWithRetry rl fn = executeWithRetry_loop rl fn 0 None []"

text \<open>The events of the attempts \<open>i, \<dots>, n - 1\<close> when each of them is retried.\<close>

definition retriedAttempts :: "int \<Rightarrow> nat \<Rightarrow> nat \<Rightarrow> retry_event list" where
  "retriedAttempts b i n =
     concat (map (\<lambda>k. [Invoke k, RetryWarn k, Sleep (b * 2 ^ k)]) [i..<n])"

definition invocations :: "retry_event list \<Rightarrow> nat" where
  "invocations tr = length (filter (\<lambda>ev. case ev of Invoke k \<Rightarrow> True | _ \<Rightarrow> False) tr)"

definition sleeps :: "retry_event list \<Rightarrow> int list" where
  "sleeps tr = concat (map (\<lambda>ev. case ev of Sleep d \<Rightarrow> [d] | _ \<Rightarrow> []) tr)"

text \<open>Two errors: a 403 whose message carries the rate-limit marker, and a plain 404.\<close>

definition rateLimitedError :: js_error where
  "rateLimitedError =
     \<lparr>message = Some ''API rate limit exceeded'', stack = None, responseStatus = Some 403\<rparr>"

definition notFoundError :: js_error where
  "notFoundError = \<lparr>message = Some ''Not Found'', stack = None, responseStatus = Some 404\<rparr>"

section \<open>StatusMapper\<close>

text \<open>
  What \<^verbatim>\<open>mapStatus\<close> can return: a string, or a property that the table inherits from
  \<^verbatim>\<open>Object.prototype\<close> (a function, or the prototype itself for \<^verbatim>\<open>__proto__\<close>),
  named by its key.
\<close>

datatype js_value = JsString string | Inherited string

definition objectPrototypeNames :: "string list" where
  "objectPrototypeNames =
     [''constructor'', ''__defineGetter__'', ''__defineSetter__'', ''hasOwnProperty'',
      ''__lookupGetter__'', ''__lookupSetter__'', ''isPrototypeOf'', ''propertyIsEnumerable'',
      ''toString'', ''valueOf'', ''__proto__'', ''toLocaleString'']"

text \<open>
  \<^verbatim>\<open>this.mapping[jiraStatus]\<close> on a plain object whose own properties are the string-valued
  entries \<open>table\<close>: an own entry is found first, then the prototype; \<open>None\<close> is undefined.
\<close>

definition getProperty :: "(string \<rightharpoonup> string) \<Rightarrow> string \<Rightarrow> js_value option" where
  "getProperty table name =
     (case table name of
        Some v \<Rightarrow> Some (JsString v)
      | None \<Rightarrow> if name \<in> set objectPrototypeNames then Some (Inherited name) else None)"

text \<open>The default mapping, from \<^verbatim>\<open>const lowerStatus = jiraStatus.toLowerCase()\<close> onwards.\<close>

definition defaultStatus :: "string \<Rightarrow> js_value" where
  "defaultStatus jiraStatus =
     (let lowerStatus = toLowerCase jiraStatus in
      if includes_str lowerStatus ''done'' \<or> includes_str lowerStatus ''closed''
         \<or> includes_str lowerStatus ''resolved'' \<or> includes_str lowerStatus ''complete''
      then JsString ''closed'' else JsString ''open'')"

text \<open>
  \<^verbatim>\<open>if (mapped) return mapped\<close>: an inherited property is truthy, a string is truthy
  unless it is empty, undefined is falsy.
\<close>

definition mapStatus :: "(string \<rightharpoonup> string) \<Rightarrow> string \<Rightarrow> js_value" where
  "mapStatus table jiraStatus =
     (case getProperty table jiraStatus of
        Some (Inherited n) \<Rightarrow> Inherited n
      | Some (JsString mapped) \<Rightarrow>
          if mapped \<noteq> [] then JsString mapped else defaultStatus jiraStatus
      | None \<Rightarrow> defaultStatus jiraStatus)"

section \<open>MarkdownConverter\<close>

abbreviation nl :: char where "nl \<equiv> CHR 0x0A"

text \<open>
  \<^verbatim>\<open>String.prototype.trim\<close>: white space and line terminators are removed at both ends.
  Among the code units up to 0xFF these are TAB, LF, VT, FF, CR, the space and the no-break
  space 0xA0.
\<close>

definition isWhiteSpace :: "char \<Rightarrow> bool" where
  "isWhiteSpace c =
     (c \<in> set [CHR 0x09, CHR 0x0A, CHR 0x0B, CHR 0x0C, CHR 0x0D, CHR 0x20, CHR 0xA0])"

definition trim :: "string \<Rightarrow> string" where
  "trim s = rev (dropWhile isWhiteSpace (rev (dropWhile isWhiteSpace s)))"

text \<open>The decimal text of a number, as the template literal \<^verbatim>\<open>`${index + 1}. `\<close> prints it.\<close>

fun natToString :: "nat \<Rightarrow> string" where
  "natToString n =
     (if n < 10 then [''0123456789'' ! n]
      else natToString (n div 10) @ [''0123456789'' ! (n mod 10)])"

declare natToString.simps [simp del]

text \<open>
  A value found in an ADF tree: \<open>NotObject\<close> is anything that fails
  \<^verbatim>\<open>adfContent && typeof adfContent === 'object'\<close>; a node carries \<^verbatim>\<open>type\<close>,
  \<^verbatim>\<open>text\<close>, \<^verbatim>\<open>content\<close> (an array when present), \<^verbatim>\<open>attrs?.level\<close> and
  \<^verbatim>\<open>attrs?.alt\<close>.
\<close>

datatype adf =
    NotObject
  | Node (ntype: string) (ntext: "string option") (content: "adf list option")
         (level: "nat option") (alt: "string option")

text \<open>The branch that the chain of comparisons on \<^verbatim>\<open>adfContent.type\<close> selects.\<close>

datatype adf_kind =
    KText | KHardBreak | KParagraph | KOrderedList | KBulletList | KListItem | KCodeBlock
  | KHeading | KMedia | KOther

definition kindOf :: "string \<Rightarrow> adf_kind" where
  "kindOf t =
     (if t = ''text'' then KText
      else if t = ''hardBreak'' then KHardBreak
      else if t = ''paragraph'' then KParagraph
      else if t = ''orderedList'' then KOrderedList
      else if t = ''bulletList'' then KBulletList
      else if t = ''listItem'' then KListItem
      else if t = ''codeBlock'' then KCodeBlock
      else if t = ''heading'' then KHeading
      else if t = ''media'' \<or> t = ''mediaSingle'' \<or> t = ''mediaGroup'' then KMedia
      else KOther)"

text \<open>
  The \<^verbatim>\<open>forEach\<close> of the list branch, over the rendered children:
  \<^verbatim>\<open>text += `${prefix + this.extractTextFromADF(item).trim()}\n`\<close>.
\<close>

definition listLines :: "bool \<Rightarrow> string list \<Rightarrow> string" where
  "listLines ordered rendered =
     concat (map (\<lambda>(index, r).
               (if ordered then natToString (index + 1) @ ''. '' else ''- '') @ trim r @ [nl])
             (enumerate 0 rendered))"

fun extractTextFromADF :: "adf \<Rightarrow> string" where
  "extractTextFromADF NotObject = []"
| "extractTextFromADF (Node t txt cont lvl al) =
     (case kindOf t of
        KText \<Rightarrow> (case txt of Some s \<Rightarrow> s | None \<Rightarrow> [])
      | KHardBreak \<Rightarrow> [nl]
      | KParagraph \<Rightarrow>
          (case cont of
             Some ns \<Rightarrow> concat (map extractTextFromADF ns) @ [nl, nl]
           | None \<Rightarrow> [])
      | KOrderedList \<Rightarrow>
          (case cont of
             Some ns \<Rightarrow> listLines True (map extractTextFromADF ns) @ [nl]
           | None \<Rightarrow> [])
      | KBulletList \<Rightarrow>
          (case cont of
             Some ns \<Rightarrow> listLines False (map extractTextFromADF ns) @ [nl]
           | None \<Rightarrow> [])
      | KListItem \<Rightarrow>
          (case cont of
             Some ns \<Rightarrow> trim (concat (map extractTextFromADF ns))
           | None \<Rightarrow> [])
      | KCodeBlock \<Rightarrow>
          (case cont of
             Some ns \<Rightarrow>
               ''```'' @ [nl] @ concat (map extractTextFromADF ns) @ [nl] @ ''```'' @ [nl, nl]
           | None \<Rightarrow> [])
      | KHeading \<Rightarrow>
          (let lv = (case lvl of Some l \<Rightarrow> if l = 0 then 1 else l | None \<Rightarrow> 1);
               headingPrefix = replicate lv CHR ''#'' @ '' ''
           in case cont of
                Some ns \<Rightarrow> headingPrefix @ concat (map extractTextFromADF ns) @ [nl, nl]
              | None \<Rightarrow> [])
      | KMedia \<Rightarrow>
          (let a = (case al of Some s \<Rightarrow> if s = [] then ''attachment'' else s
                             | None \<Rightarrow> ''attachment'')
           in ''['' @ a @ '']'')
      | KOther \<Rightarrow>
          (case cont of
             Some ns \<Rightarrow> concat (map extractTextFromADF ns)
           | None \<Rightarrow> []))"

text \<open>
  The argument of \<^verbatim>\<open>toMarkdown\<close>: null or undefined, a string, or an object. The path for
  everything but an ADF document (coercion to a string, the wiki-markup substitutions and the
  Turndown library) is the parameter \<open>legacy\<close>.
\<close>

datatype md_content = Nullish | Str string | Obj adf

definition toMarkdown :: "(md_content \<Rightarrow> string) \<Rightarrow> md_content \<Rightarrow> string" where
  "toMarkdown legacy c =
     (case c of
        Nullish \<Rightarrow> []
      | Str s \<Rightarrow> if s = [] then [] else legacy c
      | Obj n \<Rightarrow>
          (case n of
             NotObject \<Rightarrow> legacy c
           | Node t txt cont lvl al \<Rightarrow>
               if t = ''doc'' \<and> cont \<noteq> None then extractTextFromADF n else legacy c))"

text \<open>The document of the conversion example: a paragraph and a bullet list of two items.\<close>

definition textNode :: "string \<Rightarrow> adf" where
  "textNode s = Node ''text'' (Some s) None None None"

definition paragraphOf :: "string \<Rightarrow> adf" where
  "paragraphOf s = Node ''paragraph'' None (Some [textNode s]) None None"

definition itemOf :: "string \<Rightarrow> adf" where
  "itemOf s = Node ''listItem'' None (Some [paragraphOf s]) None None"

definition exampleDoc :: adf where
  "exampleDoc =
     Node ''doc'' None
       (Some [paragraphOf ''Hello'',
              Node ''bulletList'' None (Some [itemOf ''A'', itemOf ''B'']) None None])
       None None"

text \<open>
  Two further documents: an ordered list of ten items, and a bullet list whose item text has
  a no-break space and a tab in front and a space and a no-break space behind.
\<close>

definition orderedExample :: adf where
  "orderedExample =
     Node ''orderedList'' None
       (Some (map itemOf [''a'', ''b'', ''c'', ''d'', ''e'', ''f'', ''g'', ''h'', ''i'', ''j'']))
       None None"

definition paddedBullet :: adf where
  "paddedBullet =
     Node ''bulletList'' None
       (Some [Node ''listItem'' None
                (Some [textNode ([CHR 0xA0, CHR 0x09] @ ''A b'' @ [CHR 0x20, CHR 0xA0])])
                None None])
       None None"

text \<open>The number that a string of decimal digits denotes.\<close>

definition digitValue :: "char \<Rightarrow> nat" where
  "digitValue c = (case map_of (zip ''0123456789'' [0..<10]) c of Some d \<Rightarrow> d | None \<Rightarrow> 0)"

definition decimalValue :: "string \<Rightarrow> nat" where
  "decimalValue s = foldl (\<lambda>a c. 10 * a + digitValue c) 0 s"

section \<open>Migrator\<close>

subsection \<open>State\<close>

text \<open>An entry of \<^verbatim>\<open>this.mapping\<close>, as the three assignments of \<^verbatim>\<open>processIssue\<close> build it.\<close>

record mapping_entry =
  githubNumber :: "int option"
  githubUrl :: "string option"
  entryError :: "string option"
  entryStack :: "string option"
  migratedAt :: string
  status :: string

text \<open>
  \<^verbatim>\<open>this.mapping\<close> is an object used as a dictionary: an association list with distinct
  keys in insertion order; \<^verbatim>\<open>this.mapping[k] = v\<close> is \<^const>\<open>AList.update\<close> and
  \<^verbatim>\<open>this.mapping[k]\<close> is \<^const>\<open>map_of\<close>.
\<close>

type_synonym mapping_table = "(string \<times> mapping_entry) list"

record stats =
  processed :: nat
  created :: nat
  skipped :: nat
  errors :: nat
  comments :: nat
  attachments :: nat

record jira_issue =
  key :: string
  summary :: "string option"
  statusName :: "string option"
  attachment :: "string list"

record gh_issue =
  number :: int
  html_url :: string

record issue_data =
  title :: string
  body :: string
  labels :: "string list"
  state :: js_value

text \<open>
  The calls the migrator makes to its two clients while it processes an issue.
  \<open>BuildGitHubBody\<close> stands for the assembly of the body, which runs
  \<^verbatim>\<open>githubClient.handleAttachments\<close> (under the upload strategy it uploads release assets).
\<close>

datatype call =
    FindExistingIssue string
  | BuildGitHubBody string
  | EnsureLabelsExist "string list"
  | CreateIssue issue_data
  | GetComments string
  | CreateComment int string

text \<open>The calls that can create something at the destination.\<close>

fun isDestinationWrite :: "call \<Rightarrow> bool" where
  "isDestinationWrite (FindExistingIssue k) = False"
| "isDestinationWrite (BuildGitHubBody k) = True"
| "isDestinationWrite (EnsureLabelsExist ls) = True"
| "isDestinationWrite (CreateIssue d) = True"
| "isDestinationWrite (GetComments k) = False"
| "isDestinationWrite (CreateComment n b) = True"

text \<open>The messages passed to \<^verbatim>\<open>logger\<close>, by the call that writes them and its arguments.\<close>

datatype log_msg =
    DebugSkipMigrated string "int option"
  | DebugSkipExisting string "int option"
  | InfoRetrying string "string option"
  | InfoFoundExisting string int
  | InfoDryRun string "string option"
  | SuccessMigrated string int
  | ErrorFailedToMigrate string "string option"
  | ErrorStackTrace "string option"
  | DebugMigratingComments nat string
  | WarnCommentsFailed string "string option"
  | InfoCompletedBatch nat nat

text \<open>
  The fields of a \<^verbatim>\<open>Migrator\<close> that change during a run, with what the run has done so far:
  the calls to the clients, the tables written to \<^verbatim>\<open>mapping.json\<close> (oldest first), the
  log, and the state \<open>world\<close> of everything outside the process.
\<close>

record 'w migrator =
  mapping :: mapping_table
  stats :: stats
  calls :: "call list"
  saved :: "mapping_table list"
  logged :: "log_msg list"
  world :: 'w

text \<open>
  The configuration and the collaborators. Each remote operation takes the outside world and
  returns its outcome (\<open>Inl\<close> the error it throws) with the world after it. \<open>'c\<close> is the
  type of a Jira comment. \<open>buildGitHubTitle\<close>, \<open>mapLabels\<close> and \<open>renderComment\<close> are the
  text assembly of \<^verbatim>\<open>buildGitHubTitle\<close>, \<^verbatim>\<open>LabelMapper.mapLabels\<close> and the first half
  of \<^verbatim>\<open>migrateComment\<close>; \<open>typeError\<close> is the TypeError of \<^verbatim>\<open>undefined.toLowerCase()\<close>.
\<close>

record ('w, 'c) env =
  dryRun :: bool
  batchSize :: nat
  statusMapping :: "string \<rightharpoonup> string"
  now :: "'w \<Rightarrow> string"
  typeError :: js_error
  testConnections :: "'w \<Rightarrow> (js_error + unit) \<times> 'w"
  readJsonFile :: "'w \<Rightarrow> (js_error + mapping_table option) \<times> 'w"
  writeJsonFile :: "mapping_table \<Rightarrow> 'w \<Rightarrow> (js_error + unit) \<times> 'w"
  fetchJiraIssues :: "'w \<Rightarrow> (js_error + jira_issue list) \<times> 'w"
  generateSummaries :: "jira_issue list \<Rightarrow> mapping_table \<Rightarrow> 'w \<Rightarrow> (js_error + (string \<rightharpoonup> string)) \<times> 'w"
  findExistingIssue :: "string \<Rightarrow> 'w \<Rightarrow> (js_error + gh_issue option) \<times> 'w"
  buildGitHubTitle :: "jira_issue \<Rightarrow> string"
  buildGitHubBody :: "jira_issue \<Rightarrow> string option \<Rightarrow> 'w \<Rightarrow> (js_error + string) \<times> 'w"
  mapLabels :: "jira_issue \<Rightarrow> string list"
  ensureLabelsExist :: "string list \<Rightarrow> 'w \<Rightarrow> 'w"
  createIssue :: "issue_data \<Rightarrow> 'w \<Rightarrow> (js_error + gh_issue) \<times> 'w"
  getComments :: "string \<Rightarrow> 'w \<Rightarrow> (js_error + 'c list) \<times> 'w"
  renderComment :: "'c \<Rightarrow> js_error + string"
  createComment :: "int \<Rightarrow> string \<Rightarrow> 'w \<Rightarrow> (js_error + unit) \<times> 'w"

text \<open>The state the constructor sets up.\<close>

definition zeroStats :: stats where
  "zeroStats =
     \<lparr>processed = 0, created = 0, skipped = 0, errors = 0, comments = 0, attachments = 0\<rparr>"

definition newMigrator :: "'w \<Rightarrow> 'w migrator" where
  "newMigrator w =
     \<lparr>mapping = [], stats = zeroStats, calls = [], saved = [], logged = [], world = w\<rparr>"

subsection \<open>convertAndCreateIssue\<close>

text \<open>
  \<^verbatim>\<open>this.statusMapper.mapStatus(fields.status?.name)\<close>: without a status name the table is
  read at the key \<^verbatim>\<open>undefined\<close> and, when that finds nothing truthy,
  \<^verbatim>\<open>toLowerCase\<close> throws.
\<close>

definition mapStatusOf :: "('w, 'c) env \<Rightarrow> string option \<Rightarrow> js_error + js_value" where
  "mapStatusOf env nameOpt =
     (case nameOpt of
        Some name \<Rightarrow> Inr (mapStatus (statusMapping env) name)
      | None \<Rightarrow>
          (case getProperty (statusMapping env) ''undefined'' of
             Some (Inherited n) \<Rightarrow> Inr (Inherited n)
           | Some (JsString mapped) \<Rightarrow>
               if mapped \<noteq> [] then Inr (JsString mapped) else Inl (typeError env)
           | None \<Rightarrow> Inl (typeError env)))"

text \<open>
  A function of the migrator that can throw returns \<open>Inl (error, state at the throw)\<close>:
  what it changed before it threw stays changed.
\<close>

definition convertAndCreateIssue ::
  "('w, 'c) env \<Rightarrow> jira_issue \<Rightarrow> string option \<Rightarrow> 'w migrator
     \<Rightarrow> (js_error \<times> 'w migrator) + (gh_issue \<times> 'w migrator)" where
  "convertAndCreateIssue env jiraIssue aiSummary s =
     (let title' = buildGitHubTitle env jiraIssue in
      case buildGitHubBody env jiraIssue aiSummary (world s) of
        (Inl e, w1) \<Rightarrow>
          Inl (e, s\<lparr>calls := calls s @ [BuildGitHubBody (key jiraIssue)], world := w1\<rparr>)
      | (Inr body', w1) \<Rightarrow>
          (let s1 = s\<lparr>stats := (stats s)\<lparr>attachments :=
                          attachments (stats s) + length (attachment jiraIssue)\<rparr>,
                       calls := calls s @ [BuildGitHubBody (key jiraIssue)], world := w1\<rparr>;
               labels' = mapLabels env jiraIssue
           in case mapStatusOf env (statusName jiraIssue) of
                Inl e \<Rightarrow> Inl (e, s1)
              | Inr state' \<Rightarrow>
                  (let s2 = s1\<lparr>calls := calls s1 @ [EnsureLabelsExist labels'],
                                world := ensureLabelsExist env labels' (world s1)\<rparr>;
                       issueData = \<lparr>title = title', body = body', labels = labels',
                                    state = state'\<rparr>
                   in case createIssue env issueData (world s2) of
                        (Inl e, w3) \<Rightarrow>
                          Inl (e, s2\<lparr>calls := calls s2 @ [CreateIssue issueData], world := w3\<rparr>)
                      | (Inr githubIssue, w3) \<Rightarrow>
                          Inr (githubIssue,
                               s2\<lparr>calls := calls s2 @ [CreateIssue issueData], world := w3\<rparr>))))"

subsection \<open>migrateComments\<close>

definition migrateComment ::
  "('w, 'c) env \<Rightarrow> 'c \<Rightarrow> int \<Rightarrow> 'w migrator \<Rightarrow> (js_error \<times> 'w migrator) + 'w migrator" where
  "migrateComment env jiraComment githubIssueNumber s =
     (case renderComment env jiraComment of
        Inl e \<Rightarrow> Inl (e, s)
      | Inr githubCommentBody \<Rightarrow>
          (case createComment env githubIssueNumber githubCommentBody (world s) of
             (Inl e, w) \<Rightarrow>
               Inl (e, s\<lparr>calls := calls s @ [CreateComment githubIssueNumber githubCommentBody],
                         world := w\<rparr>)
           | (Inr u, w) \<Rightarrow>
               Inr (s\<lparr>calls := calls s @ [CreateComment githubIssueNumber githubCommentBody],
                      world := w\<rparr>)))"

text \<open>The \<^verbatim>\<open>for\<close> loop over the comments; a throw leaves the loop.\<close>

fun migrateCommentsLoop ::
  "('w, 'c) env \<Rightarrow> 'c list \<Rightarrow> int \<Rightarrow> 'w migrator \<Rightarrow> (js_error \<times> 'w migrator) + 'w migrator" where
  "migrateCommentsLoop env [] githubIssueNumber s = Inr s"
| "migrateCommentsLoop env (comment # rest) githubIssueNumber s =
     (case migrateComment env comment githubIssueNumber s of
        Inl thrown \<Rightarrow> Inl thrown
      | Inr s1 \<Rightarrow>
          migrateCommentsLoop env rest githubIssueNumber
            (s1\<lparr>stats := (stats s1)\<lparr>comments := comments (stats s1) + 1\<rparr>\<rparr>))"

text \<open>The body of the \<^verbatim>\<open>try\<close> of \<^verbatim>\<open>migrateComments\<close>.\<close>

definition tryMigrateComments ::
  "('w, 'c) env \<Rightarrow> jira_issue \<Rightarrow> int \<Rightarrow> 'w migrator \<Rightarrow> (js_error \<times> 'w migrator) + 'w migrator" where
  "tryMigrateComments env jiraIssue githubIssueNumber s =
     (case getComments env (key jiraIssue) (world s) of
        (Inl e, w) \<Rightarrow> Inl (e, s\<lparr>calls := calls s @ [GetComments (key jiraIssue)], world := w\<rparr>)
      | (Inr cs, w) \<Rightarrow>
          (let s1 = s\<lparr>calls := calls s @ [GetComments (key jiraIssue)], world := w\<rparr>
           in if length cs = 0 then Inr s1
              else migrateCommentsLoop env cs githubIssueNumber
                     (s1\<lparr>logged := logged s1 @ [DebugMigratingComments (length cs) (key jiraIssue)]\<rparr>)))"

definition migrateComments ::
  "('w, 'c) env \<Rightarrow> jira_issue \<Rightarrow> int \<Rightarrow> 'w migrator \<Rightarrow> 'w migrator" where
  "migrateComments env jiraIssue githubIssueNumber s =
     (case tryMigrateComments env jiraIssue githubIssueNumber s of
        Inr s1 \<Rightarrow> s1
      | Inl (e, s1) \<Rightarrow>
          s1\<lparr>logged := logged s1 @ [WarnCommentsFailed (key jiraIssue) (message e)]\<rparr>)"

subsection \<open>processIssue\<close>

text \<open>\<^verbatim>\<open>this.mapping[jiraKey] && this.mapping[jiraKey].status === st\<close>\<close>

definition hasStatus :: "mapping_table \<Rightarrow> string \<Rightarrow> string \<Rightarrow> bool" where
  "hasStatus m jiraKey st =
     (case map_of m jiraKey of Some entry \<Rightarrow> status entry = st | None \<Rightarrow> False)"

definition entryNumber :: "mapping_table \<Rightarrow> string \<Rightarrow> int option" where
  "entryNumber m jiraKey = (case map_of m jiraKey of Some entry \<Rightarrow> githubNumber entry | None \<Rightarrow> None)"

definition entryErrorOf :: "mapping_table \<Rightarrow> string \<Rightarrow> string option" where
  "entryErrorOf m jiraKey = (case map_of m jiraKey of Some entry \<Rightarrow> entryError entry | None \<Rightarrow> None)"

definition existingEntry :: "gh_issue \<Rightarrow> string \<Rightarrow> mapping_entry" where
  "existingEntry existingIssue t =
     \<lparr>githubNumber = Some (number existingIssue), githubUrl = Some (html_url existingIssue),
      entryError = None, entryStack = None, migratedAt = t, status = ''existing''\<rparr>"

definition migratedEntry :: "gh_issue \<Rightarrow> string \<Rightarrow> mapping_entry" where
  "migratedEntry githubIssue t =
     \<lparr>githubNumber = Some (number githubIssue), githubUrl = Some (html_url githubIssue),
      entryError = None, entryStack = None, migratedAt = t, status = ''migrated''\<rparr>"

definition errorEntry :: "js_error \<Rightarrow> string \<Rightarrow> mapping_entry" where
  "errorEntry e t =
     \<lparr>githubNumber = None, githubUrl = None,
      entryError = message e, entryStack = stack e, migratedAt = t, status = ''error''\<rparr>"

text \<open>
  The \<^verbatim>\<open>try\<close> block from the search for an existing GitHub issue onwards (the part
  reached when the key is neither migrated nor existing).
\<close>

definition searchAndCreate ::
  "('w, 'c) env \<Rightarrow> jira_issue \<Rightarrow> string option \<Rightarrow> 'w migrator
     \<Rightarrow> (js_error \<times> 'w migrator) + 'w migrator" where
  "searchAndCreate env jiraIssue aiSummary s =
     (let jiraKey = key jiraIssue in
      case findExistingIssue env jiraKey (world s) of
        (Inl e, w) \<Rightarrow> Inl (e, s\<lparr>calls := calls s @ [FindExistingIssue jiraKey], world := w\<rparr>)
      | (Inr (Some existingIssue), w) \<Rightarrow>
          Inr (s\<lparr>mapping := AList.update jiraKey (existingEntry existingIssue (now env w))
                               (mapping s),
                 stats := (stats s)\<lparr>skipped := skipped (stats s) + 1\<rparr>,
                 calls := calls s @ [FindExistingIssue jiraKey],
                 logged := logged s @ [InfoFoundExisting jiraKey (number existingIssue)],
                 world := w\<rparr>)
      | (Inr None, w) \<Rightarrow>
          (let s1 = s\<lparr>calls := calls s @ [FindExistingIssue jiraKey], world := w\<rparr> in
           if dryRun env then
             Inr (s1\<lparr>stats := (stats s1)\<lparr>created := created (stats s1) + 1\<rparr>,
                     logged := logged s1 @ [InfoDryRun jiraKey (summary jiraIssue)]\<rparr>)
           else
             (case convertAndCreateIssue env jiraIssue aiSummary s1 of
                Inl thrown \<Rightarrow> Inl thrown
              | Inr (githubIssue, s2) \<Rightarrow>
                  (let s3 = s2\<lparr>mapping := AList.update jiraKey
                                   (migratedEntry githubIssue (now env (world s2))) (mapping s2)\<rparr>;
                       s4 = migrateComments env jiraIssue (number githubIssue) s3
                   in Inr (s4\<lparr>stats := (stats s4)\<lparr>created := created (stats s4) + 1\<rparr>,
                              logged := logged s4
                                @ [SuccessMigrated jiraKey (number githubIssue)]\<rparr>)))))"

text \<open>The whole \<^verbatim>\<open>try\<close> block of \<^verbatim>\<open>processIssue\<close>.\<close>

definition tryProcessIssue ::
  "('w, 'c) env \<Rightarrow> jira_issue \<Rightarrow> string option \<Rightarrow> 'w migrator
     \<Rightarrow> (js_error \<times> 'w migrator) + 'w migrator" where
  "tryProcessIssue env jiraIssue aiSummary s =
     (let jiraKey = key jiraIssue;
          s1 = s\<lparr>stats := (stats s)\<lparr>processed := processed (stats s) + 1\<rparr>\<rparr>
      in if hasStatus (mapping s1) jiraKey ''migrated'' then
           Inr (s1\<lparr>stats := (stats s1)\<lparr>skipped := skipped (stats s1) + 1\<rparr>,
                   logged := logged s1
                     @ [DebugSkipMigrated jiraKey (entryNumber (mapping s1) jiraKey)]\<rparr>)
         else if hasStatus (mapping s1) jiraKey ''existing'' then
           Inr (s1\<lparr>stats := (stats s1)\<lparr>skipped := skipped (stats s1) + 1\<rparr>,
                   logged := logged s1
                     @ [DebugSkipExisting jiraKey (entryNumber (mapping s1) jiraKey)]\<rparr>)
         else
           searchAndCreate env jiraIssue aiSummary
             (if hasStatus (mapping s1) jiraKey ''error''
              then s1\<lparr>logged := logged s1
                        @ [InfoRetrying jiraKey (entryErrorOf (mapping s1) jiraKey)]\<rparr>
              else s1))"

text \<open>\<^verbatim>\<open>processIssue\<close>: the \<^verbatim>\<open>try\<close> block and its \<^verbatim>\<open>catch\<close>.\<close>

definition processIssue ::
  "('w, 'c) env \<Rightarrow> jira_issue \<Rightarrow> string option \<Rightarrow> 'w migrator \<Rightarrow> 'w migrator" where
  "processIssue env jiraIssue aiSummary s =
     (case tryProcessIssue env jiraIssue aiSummary s of
        Inr s1 \<Rightarrow> s1
      | Inl (e, s1) \<Rightarrow>
          s1\<lparr>mapping := AList.update (key jiraIssue) (errorEntry e (now env (world s1)))
                           (mapping s1),
             stats := (stats s1)\<lparr>errors := errors (stats s1) + 1\<rparr>,
             logged := logged s1
               @ [ErrorFailedToMigrate (key jiraIssue) (message e), ErrorStackTrace (stack e)]\<rparr>)"

subsection \<open>processIssuesBatch and migrate\<close>

text \<open>
  The loop of \<^verbatim>\<open>chunkArray\<close>, with \<^verbatim>\<open>array.slice(i, i + size)\<close> as
  \<open>take size (drop i array)\<close>. With \<open>size = 0\<close> and a non-empty array the loop never ends:
  the result is \<open>None\<close>.
\<close>

partial_function (option) chunkArray_loop ::
  "'a list \<Rightarrow> nat \<Rightarrow> nat \<Rightarrow> 'a list list \<Rightarrow> 'a list list option" where
  "chunkArray_loop array size' i chunks =
     (if i < length array
      then chunkArray_loop array size' (i + size') (chunks @ [take size' (drop i array)])
      else Some chunks)"

definition chunkArray :: "'a list \<Rightarrow> nat \<Rightarrow> 'a list list option" where
  "chunkArray array size' = chunkArray_loop array size' 0 []"

definition saveMapping ::
  "('w, 'c) env \<Rightarrow> 'w migrator \<Rightarrow> (js_error \<times> 'w migrator) + 'w migrator" where
  "saveMapping env s =
     (case writeJsonFile env (mapping s) (world s) of
        (Inl e, w) \<Rightarrow> Inl (e, s\<lparr>world := w\<rparr>)
      | (Inr u, w) \<Rightarrow> Inr (s\<lparr>saved := saved s @ [mapping s], world := w\<rparr>))"

text \<open>The inner loop: the issues of one batch, one after the other.\<close>

fun processBatchIssues ::
  "('w, 'c) env \<Rightarrow> (string \<rightharpoonup> string) \<Rightarrow> jira_issue list \<Rightarrow> 'w migrator \<Rightarrow> 'w migrator" where
  "processBatchIssues env summaries [] s = s"
| "processBatchIssues env summaries (jiraIssue # rest) s =
     processBatchIssues env summaries rest
       (processIssue env jiraIssue (summaries (key jiraIssue)) s)"

text \<open>The outer loop: each batch, then \<^verbatim>\<open>saveMapping\<close>; \<open>i\<close> is the index of the batch.\<close>

fun processBatches ::
  "('w, 'c) env \<Rightarrow> (string \<rightharpoonup> string) \<Rightarrow> nat \<Rightarrow> nat \<Rightarrow> jira_issue list list \<Rightarrow> 'w migrator
     \<Rightarrow> (js_error \<times> 'w migrator) + 'w migrator" where
  "processBatches env summaries nBatches i [] s = Inr s"
| "processBatches env summaries nBatches i (batch # rest) s =
     (case saveMapping env (processBatchIssues env summaries batch s) of
        Inl thrown \<Rightarrow> Inl thrown
      | Inr s1 \<Rightarrow>
          processBatches env summaries nBatches (i + 1) rest
            (s1\<lparr>logged := logged s1 @ [InfoCompletedBatch (i + 1) nBatches]\<rparr>))"

definition processIssuesBatch ::
  "('w, 'c) env \<Rightarrow> jira_issue list \<Rightarrow> (string \<rightharpoonup> string) \<Rightarrow> 'w migrator
     \<Rightarrow> ((js_error \<times> 'w migrator) + 'w migrator) option" where
  "processIssuesBatch env jiraIssues summaries s =
     (case chunkArray jiraIssues (batchSize env) of
        None \<Rightarrow> None
      | Some batches \<Rightarrow> Some (processBatches env summaries (length batches) 0 batches s))"

text \<open>
  \<^verbatim>\<open>migrate\<close>, from a fresh migrator: a throw of any step is rethrown by its \<^verbatim>\<open>catch\<close>;
  the value returned is the migrator, whose \<open>stats\<close> the source returns.
\<close>

definition migrate ::
  "('w, 'c) env \<Rightarrow> 'w \<Rightarrow> ((js_error \<times> 'w migrator) + 'w migrator) option" where
  "migrate env w0 =
     (let s0 = newMigrator w0 in
      case testConnections env (world s0) of
        (Inl e, w1) \<Rightarrow> Some (Inl (e, s0\<lparr>world := w1\<rparr>))
      | (Inr u, w1) \<Rightarrow>
          (case readJsonFile env w1 of
             (Inl e, w2) \<Rightarrow> Some (Inl (e, s0\<lparr>world := w2\<rparr>))
           | (Inr existingMapping, w2) \<Rightarrow>
               (let s2 = s0\<lparr>mapping := (case existingMapping of Some m \<Rightarrow> m | None \<Rightarrow> mapping s0),
                            world := w2\<rparr>
                in case fetchJiraIssues env (world s2) of
                     (Inl e, w3) \<Rightarrow> Some (Inl (e, s2\<lparr>world := w3\<rparr>))
                   | (Inr jiraIssues, w3) \<Rightarrow>
                       if length jiraIssues = 0 then Some (Inr (s2\<lparr>world := w3\<rparr>))
                       else
                         (case generateSummaries env jiraIssues (mapping s2) w3 of
                            (Inl e, w4) \<Rightarrow> Some (Inl (e, s2\<lparr>world := w4\<rparr>))
                          | (Inr summaries, w4) \<Rightarrow>
                              (case processIssuesBatch env jiraIssues summaries (s2\<lparr>world := w4\<rparr>) of
                                 None \<Rightarrow> None
                               | Some (Inl thrown) \<Rightarrow> Some (Inl thrown)
                               | Some (Inr s5) \<Rightarrow> Some (saveMapping env s5))))))"

subsection \<open>Views of the state\<close>

text \<open>The four counters that classify an issue, and the table with its written copies.\<close>

definition sameCounters :: "'w migrator \<Rightarrow> 'w migrator \<Rightarrow> bool" where
  "sameCounters s t \<longleftrightarrow>
     processed (stats t) = processed (stats s) \<and> created (stats t) = created (stats s)
     \<and> skipped (stats t) = skipped (stats s) \<and> errors (stats t) = errors (stats s)"

definition sameTable :: "'w migrator \<Rightarrow> 'w migrator \<Rightarrow> bool" where
  "sameTable s t \<longleftrightarrow> mapping t = mapping s \<and> saved t = saved s"



subsection \<open>A concrete environment\<close>

text \<open>
  Collaborators that always succeed: nothing exists at the destination, the world is the
  number of issues created so far and the next issue gets the next number, issues have no
  comments, and every file write succeeds.
\<close>

definition demoTypeError :: js_error where
  "demoTypeError =
     \<lparr>message = Some ''Cannot read properties of undefined'', stack = None,
      responseStatus = None\<rparr>"

definition demoEnv :: "(nat, string) env" where
  "demoEnv =
     \<lparr>dryRun = False, batchSize = 10, statusMapping = Map.empty,
      now = (\<lambda>w. ''2024-01-01T00:00:00.000Z''),
      typeError = demoTypeError,
      testConnections = (\<lambda>w. (Inr (), w)),
      readJsonFile = (\<lambda>w. (Inr None, w)),
      writeJsonFile = (\<lambda>m w. (Inr (), w)),
      fetchJiraIssues = (\<lambda>w. (Inr [], w)),
      generateSummaries = (\<lambda>issues m w. (Inr Map.empty, w)),
      findExistingIssue = (\<lambda>k w. (Inr None, w)),
      buildGitHubTitle = (\<lambda>i. ''['' @ key i @ ''] ''
                                 @ (case summary i of Some t \<Rightarrow> t | None \<Rightarrow> ''Untitled Issue'')),
      buildGitHubBody = (\<lambda>i a w. (Inr ''body'', w)),
      mapLabels = (\<lambda>i. [''migrated-from-jira'']),
      ensureLabelsExist = (\<lambda>ls w. w),
      createIssue = (\<lambda>d w. (Inr \<lparr>number = int w + 1, html_url = ''https://github.com/o/r/issues''\<rparr>,
                              w + 1)),
      getComments = (\<lambda>k w. (Inr [], w)),
      renderComment = (\<lambda>c. Inr c),
      createComment = (\<lambda>n b w. (Inr (), w))\<rparr>"

definition issueX1 :: jira_issue where
  "issueX1 = \<lparr>key = ''X-1'', summary = Some ''First item'', statusName = Some ''To Do'',
              attachment = []\<rparr>"

text \<open>A migrator whose table already holds a migrated record for X-1.\<close>

definition alreadyMigrated :: "nat migrator" where
  "alreadyMigrated =
     (newMigrator 7)\<lparr>mapping :=
        [(''X-1'', migratedEntry \<lparr>number = 7, html_url = ''https://github.com/o/r/issues''\<rparr>
                    ''2023-12-31T00:00:00.000Z'')]\<rparr>"

text \<open>
  An issue with two comments, where GitHub rejects the first comment and would accept the
  second.
\<close>

definition serverError :: js_error where
  "serverError =
     \<lparr>message = Some ''Internal Server Error'', stack = None, responseStatus = Some 500\<rparr>"

definition commentsFailEnv :: "(nat, string) env" where
  "commentsFailEnv =
     demoEnv\<lparr>getComments := (\<lambda>k w. (Inr [''first'', ''second''], w)),
             createComment := (\<lambda>n b w. if b = ''first'' then (Inl serverError, w)
                                         else (Inr (), w))\<rparr>"


definition x1IssueData :: issue_data where
  "x1IssueData =
     \<lparr>title = ''[X-1] First item'', body = ''body'', labels = [''migrated-from-jira''],
      state = JsString ''open''\<rparr>"






text \<open>
  The keys of the tables written after each batch, when every issue adds its key: \<open>ks\<close> are
  the keys before the first batch.
\<close>

fun keysAfter :: "string list \<Rightarrow> jira_issue list list \<Rightarrow> string list list" where
  "keysAfter ks [] = []"
| "keysAfter ks (batch # rest) = (ks @ map key batch) # keysAfter (ks @ map key batch) rest"

text \<open>A run over the 23 issues X-1, \<dots>, X-23 with no mapping file, and its number of writes.\<close>

definition demoIssue :: "nat \<Rightarrow> jira_issue" where
  "demoIssue n = \<lparr>key = ''X-'' @ natToString n, summary = Some ''Item'',
                  statusName = Some ''To Do'', attachment = []\<rparr>"

definition demoIssues :: "jira_issue list" where
  "demoIssues = map demoIssue [1..<24]"

definition runEnv :: "(nat, string) env" where
  "runEnv = demoEnv\<lparr>fetchJiraIssues := (\<lambda>w. (Inr demoIssues, w))\<rparr>"

definition writesOfRun :: "((js_error \<times> 'w migrator) + 'w migrator) option \<Rightarrow> nat option" where
  "writesOfRun r = (case r of Some (Inr s) \<Rightarrow> Some (length (saved s)) | _ \<Rightarrow> None)"

section \<open>Retry bound\<close>

lemma retry_loop_all_retried:
  assumes "i \<le> maxRetries rl"
    and "\<forall>k. i \<le> k \<and> k \<le> maxRetries rl \<longrightarrow>
           (\<exists>e. fn k = Inl e \<and> (isRateLimit e \<or> \<not> statusBelow500 e))"
  shows "\<exists>e. fn (maxRetries rl) = Inl e \<and>
           executeWithRetry_loop rl fn i le tr =
             (Inl (Some e),
              tr @ retriedAttempts (baseDelay rl) i (maxRetries rl) @ [Invoke (maxRetries rl)])"
  using assms
proof (induction "maxRetries rl - i" arbitrary: i le tr)
  case 0
  then have i: "i = maxRetries rl" by simp
  from "0.prems"(2) i obtain e where e: "fn (maxRetries rl) = Inl e" by blast
  show ?case
    using e i by (subst executeWithRetry_loop.simps) (simp add: retriedAttempts_def)
next
  case (Suc d)
  then have lt: "i < maxRetries rl" by simp
  from Suc.prems(2) lt obtain e where e: "fn i = Inl e" "isRateLimit e \<or> \<not> statusBelow500 e"
    by (metis less_or_eq_imp_le order_refl)
  have d: "d = maxRetries rl - (i + 1)" using Suc.hyps(2) by simp
  have le': "i + 1 \<le> maxRetries rl" using lt by simp
  have all': "\<forall>k. i + 1 \<le> k \<and> k \<le> maxRetries rl \<longrightarrow>
           (\<exists>e. fn k = Inl e \<and> (isRateLimit e \<or> \<not> statusBelow500 e))"
    using Suc.prems(2) by simp
  from Suc.hyps(1) [OF d le' all']
  obtain e' where e': "fn (maxRetries rl) = Inl e'"
    and run: "\<And>le tr. executeWithRetry_loop rl fn (i + 1) le tr =
             (Inl (Some e'),
              tr @ retriedAttempts (baseDelay rl) (i + 1) (maxRetries rl) @ [Invoke (maxRetries rl)])"
    by (metis sum.inject(1))
  have split: "retriedAttempts (baseDelay rl) i (maxRetries rl) =
      [Invoke i, RetryWarn i, Sleep (baseDelay rl * 2 ^ i)]
      @ retriedAttempts (baseDelay rl) (i + 1) (maxRetries rl)"
    using lt by (simp add: retriedAttempts_def upt_conv_Cons)
  show ?case
    using e e' lt run split
    by (subst executeWithRetry_loop.simps) auto
qed

lemma invocations_retriedAttempts: "invocations (retriedAttempts b i n) = n - i"
  by (induction n) (auto simp: invocations_def retriedAttempts_def)

lemma invocations_append: "invocations (xs @ ys) = invocations xs + invocations ys"
  by (simp add: invocations_def)

lemma sleeps_append: "sleeps (xs @ ys) = sleeps xs @ sleeps ys"
  by (simp add: sleeps_def)

lemma sleeps_retriedAttempts: "sleeps (retriedAttempts b i n) = map (\<lambda>k. b * 2 ^ k) [i..<n]"
  by (induction n) (auto simp: sleeps_def retriedAttempts_def)

text \<open>
  C2. When every attempt fails with an error that is rate-limited or whose status is not
  below 500, \<open>executeWithRetry\<close> invokes the operation \<open>maxRetries + 1\<close> times, sleeps
  \<open>baseDelay * 2 ^ k\<close> after attempt \<open>k\<close> for \<open>k = 0, \<dots>, maxRetries - 1\<close> (nothing is added
  to the delay), and throws the error of the last attempt.
\<close>

theorem executeWithRetry_transient_bound:
  assumes "\<forall>k\<le>maxRetries rl. \<exists>e. fn k = Inl e \<and> (isRateLimit e \<or> \<not> statusBelow500 e)"
  shows "\<exists>e. fn (maxRetries rl) = Inl e
           \<and> fst (executeWithRetry rl fn) = Inl (Some e)
           \<and> snd (executeWithRetry rl fn) =
               retriedAttempts (baseDelay rl) 0 (maxRetries rl) @ [Invoke (maxRetries rl)]
           \<and> invocations (snd (executeWithRetry rl fn)) = maxRetries rl + 1
           \<and> sleeps (snd (executeWithRetry rl fn)) =
               map (\<lambda>k. baseDelay rl * 2 ^ k) [0..<maxRetries rl]"
proof -
  have all: "\<forall>k. 0 \<le> k \<and> k \<le> maxRetries rl \<longrightarrow>
           (\<exists>e. fn k = Inl e \<and> (isRateLimit e \<or> \<not> statusBelow500 e))"
    using assms by simp
  have "\<exists>e. fn (maxRetries rl) = Inl e \<and>
           executeWithRetry_loop rl fn 0 None [] =
             (Inl (Some e),
              [] @ retriedAttempts (baseDelay rl) 0 (maxRetries rl) @ [Invoke (maxRetries rl)])"
    by (rule retry_loop_all_retried) (use all in simp_all)
  then obtain e where e: "fn (maxRetries rl) = Inl e"
    and run: "executeWithRetry rl fn =
      (Inl (Some e), retriedAttempts (baseDelay rl) 0 (maxRetries rl) @ [Invoke (maxRetries rl)])"
    by (auto simp: executeWithRetry_def)
  have one: "invocations [Invoke (maxRetries rl)] = 1" "sleeps [Invoke (maxRetries rl)] = []"
    by (simp_all add: invocations_def sleeps_def)
  show ?thesis
    using e run one
    by (simp add: invocations_append invocations_retriedAttempts sleeps_append
        sleeps_retriedAttempts)
qed

theorem executeWithRetry_transient_bound_witness:
  "fst (executeWithRetry \<lparr>maxRetries = 3, baseDelay = 1000\<rparr>
          (\<lambda>k. Inl rateLimitedError :: js_error + unit)) = Inl (Some rateLimitedError)
   \<and> invocations (snd (executeWithRetry \<lparr>maxRetries = 3, baseDelay = 1000\<rparr>
          (\<lambda>k. Inl rateLimitedError :: js_error + unit))) = 4
   \<and> sleeps (snd (executeWithRetry \<lparr>maxRetries = 3, baseDelay = 1000\<rparr>
          (\<lambda>k. Inl rateLimitedError :: js_error + unit))) = [1000, 2000, 4000]"
proof -
  let ?rl = "\<lparr>maxRetries = 3, baseDelay = 1000\<rparr>"
  let ?fn = "\<lambda>k. Inl rateLimitedError :: js_error + unit"
  have upt3: "[0..<3] = [0, 1, 2 :: nat]" by code_simp
  have hyp: "\<forall>k\<le>maxRetries ?rl. \<exists>e. ?fn k = Inl e \<and> (isRateLimit e \<or> \<not> statusBelow500 e)"
    by (simp add: isRateLimit_def rateLimitedError_def)
  from executeWithRetry_transient_bound [OF hyp] show ?thesis
    by (auto simp: upt3)
qed

section \<open>Fatal short-circuit\<close>

text \<open>
  C4. When the first invocation fails with an error whose status is below 500 and that is not
  rate-limited (status other than 429, neither marker in the message), \<open>executeWithRetry\<close>
  invokes the operation once, sleeps never and throws that error.
\<close>

theorem executeWithRetry_client_error_once:
  assumes "fn 0 = Inl e" and "\<not> isRateLimit e" and "statusBelow500 e"
  shows "executeWithRetry rl fn = (Inl (Some e), [Invoke 0])
         \<and> invocations (snd (executeWithRetry rl fn)) = 1
         \<and> sleeps (snd (executeWithRetry rl fn)) = []"
proof -
  have "executeWithRetry rl fn = (Inl (Some e), [Invoke 0])"
    unfolding executeWithRetry_def using assms
    by (subst executeWithRetry_loop.simps) simp
  then show ?thesis
    by (simp add: invocations_def sleeps_def)
qed

theorem executeWithRetry_client_error_once_witness:
  "executeWithRetry \<lparr>maxRetries = 3, baseDelay = 1000\<rparr>
     (\<lambda>k. Inl notFoundError :: js_error + unit) = (Inl (Some notFoundError), [Invoke 0])"
proof -
  have "\<not> isRateLimit notFoundError" "statusBelow500 notFoundError"
    by (simp_all add: isRateLimit_def statusBelow500_def notFoundError_def)
  from executeWithRetry_client_error_once
         [of "\<lambda>k. Inl notFoundError :: js_error + unit" notFoundError
             "\<lparr>maxRetries = 3, baseDelay = 1000\<rparr>", OF refl this]
  show ?thesis
    by simp
qed

section \<open>Status mapping\<close>





lemma mapStatus_To_Do: "mapStatus Map.empty ''To Do'' = JsString ''open''"
  by (simp add: mapStatus_def getProperty_def objectPrototypeNames_def defaultStatus_def
      toLowerCase_def lowerChar_def)

section \<open>Document conversion\<close>

lemma listLines_bullet:
  "listLines False (map f ns) = concat (map (\<lambda>item. ''- '' @ trim (f item) @ [nl]) ns)"
proof -
  have "concat (map (\<lambda>(index, r). (if False then natToString (index + 1) @ ''. '' else ''- '')
                       @ trim r @ [nl]) (enumerate n (map f ns))) =
        concat (map (\<lambda>item. ''- '' @ trim (f item) @ [nl]) ns)" for n
    by (induction ns arbitrary: n) simp_all
  then show ?thesis
    unfolding listLines_def .
qed

lemma listLines_ordered:
  "listLines True (map f ns) =
   concat (map (\<lambda>(index, item). natToString (index + 1) @ ''. '' @ trim (f item) @ [nl])
             (enumerate 0 ns))"
proof -
  have "concat (map (\<lambda>(index, r). (if True then natToString (index + 1) @ ''. '' else ''- '')
                       @ trim r @ [nl]) (enumerate n (map f ns))) =
        concat (map (\<lambda>(index, item). natToString (index + 1) @ ''. '' @ trim (f item) @ [nl])
             (enumerate n ns))" for n
    by (induction ns arbitrary: n) simp_all
  then show ?thesis
    unfolding listLines_def .
qed

lemma digit_nth: "d < 10 \<Longrightarrow> digitValue (''0123456789'' ! d) = d"
proof -
  assume "d < 10"
  then have "d \<in> set [0..<10]" by simp
  then have "d \<in> {0, 1, 2, 3, 4, 5, 6, 7, 8, 9}"
    by (simp add: upt_rec numeral_eq_Suc)
  then show ?thesis
    by (auto simp: digitValue_def upt_rec numeral_eq_Suc)
qed

lemma digit_in: "d < 10 \<Longrightarrow> ''0123456789'' ! d \<in> set ''0123456789''"
  by (rule nth_mem) simp

lemma decimalValue_natToString: "decimalValue (natToString n) = n"
proof (induction n rule: natToString.induct)
  case (1 n)
  show ?case
  proof (cases "n < 10")
    case True
    then show ?thesis
      by (subst natToString.simps) (simp add: decimalValue_def digit_nth)
  next
    case False
    with 1 have ih: "decimalValue (natToString (n div 10)) = n div 10" by simp
    have "decimalValue (natToString n) = 10 * decimalValue (natToString (n div 10)) + digitValue (''0123456789'' ! (n mod 10))"
      using False by (subst natToString.simps) (simp add: decimalValue_def)
    also have "\<dots> = 10 * (n div 10) + n mod 10"
      by (simp add: ih digit_nth)
    finally show ?thesis by simp
  qed
qed

lemma digits_natToString: "set (natToString n) \<subseteq> set ''0123456789''"
proof (induction n rule: natToString.induct)
  case (1 n)
  show ?case
  proof (cases "n < 10")
    case True
    from digit_in [OF True] show ?thesis
      using True by (subst natToString.simps) simp
  next
    case False
    with 1 have ih: "set (natToString (n div 10)) \<subseteq> set ''0123456789''" by simp
    have m: "n mod 10 < 10" by simp
    from digit_in [OF m] ih show ?thesis
      using False by (subst natToString.simps) simp
  qed
qed

text \<open>
  C9. The example document converts to the lines "Hello", "", "- A", "- B", "" in that order.
  A bullet list with children renders each child as "- ", its trimmed text and a newline, an
  ordered list as the 1-based index in decimal, ". ", the trimmed text and a newline; a further
  newline (the blank line) follows the children. So the ordered list of ten items renders as
  "1. a" to "10. j", and white space around an item's text, the no-break space included, is
  removed.
\<close>

theorem toMarkdown_lists:
  "toMarkdown legacy (Obj exampleDoc) =
     ''Hello'' @ [nl, nl] @ ''- A'' @ [nl] @ ''- B'' @ [nl] @ [nl]
   \<and> extractTextFromADF (Node ''bulletList'' txt (Some ns) lvl al) =
       concat (map (\<lambda>item. ''- '' @ trim (extractTextFromADF item) @ [nl]) ns) @ [nl]
   \<and> extractTextFromADF (Node ''orderedList'' txt (Some ns) lvl al) =
       concat (map (\<lambda>(index, item).
                 natToString (index + 1) @ ''. '' @ trim (extractTextFromADF item) @ [nl])
               (enumerate 0 ns)) @ [nl]
   \<and> extractTextFromADF orderedExample =
       ''1. a'' @ [nl] @ ''2. b'' @ [nl] @ ''3. c'' @ [nl] @ ''4. d'' @ [nl] @ ''5. e'' @ [nl]
       @ ''6. f'' @ [nl] @ ''7. g'' @ [nl] @ ''8. h'' @ [nl] @ ''9. i'' @ [nl] @ ''10. j'' @ [nl]
       @ [nl]
   \<and> extractTextFromADF paddedBullet = ''- A b'' @ [nl] @ [nl]
   \<and> decimalValue (natToString n) = n
   \<and> set (natToString n) \<subseteq> set ''0123456789''"
proof -
  have ex: "toMarkdown legacy (Obj exampleDoc) =
     ''Hello'' @ [nl, nl] @ ''- A'' @ [nl] @ ''- B'' @ [nl] @ [nl]"
    by (simp add: toMarkdown_def exampleDoc_def itemOf_def paragraphOf_def textNode_def
        kindOf_def listLines_def trim_def isWhiteSpace_def)
  have bl: "extractTextFromADF (Node ''bulletList'' txt (Some ns) lvl al) =
       concat (map (\<lambda>item. ''- '' @ trim (extractTextFromADF item) @ [nl]) ns) @ [nl]"
    by (simp add: kindOf_def listLines_bullet)
  have ol: "extractTextFromADF (Node ''orderedList'' txt (Some ns) lvl al) =
       concat (map (\<lambda>(index, item).
                 natToString (index + 1) @ ''. '' @ trim (extractTextFromADF item) @ [nl])
               (enumerate 0 ns)) @ [nl]"
    by (simp add: kindOf_def listLines_ordered)
  have oe: "extractTextFromADF orderedExample =
       ''1. a'' @ [nl] @ ''2. b'' @ [nl] @ ''3. c'' @ [nl] @ ''4. d'' @ [nl] @ ''5. e'' @ [nl]
       @ ''6. f'' @ [nl] @ ''7. g'' @ [nl] @ ''8. h'' @ [nl] @ ''9. i'' @ [nl] @ ''10. j'' @ [nl]
       @ [nl]"
    by (simp add: orderedExample_def itemOf_def paragraphOf_def textNode_def
        kindOf_def listLines_def trim_def isWhiteSpace_def natToString.simps)
  have pb: "extractTextFromADF paddedBullet = ''- A b'' @ [nl] @ [nl]"
    by (simp add: paddedBullet_def textNode_def kindOf_def listLines_def trim_def
        isWhiteSpace_def)
  show ?thesis
    by (intro conjI) (rule ex, rule bl, rule ol, rule oe, rule pb,
        rule decimalValue_natToString, rule digits_natToString)
qed

section \<open>Frame lemmas of the migrator\<close>

lemma convertAndCreateIssue_frame:
  "(case convertAndCreateIssue env i ai s of
      Inl (e, t) \<Rightarrow> sameCounters s t \<and> sameTable s t
    | Inr (g, t) \<Rightarrow> sameCounters s t \<and> sameTable s t)"
  by (simp add: convertAndCreateIssue_def sameCounters_def sameTable_def Let_def
      split: prod.splits sum.splits)

lemma migrateComment_frame:
  "(case migrateComment env c n s of
      Inl (e, t) \<Rightarrow> sameCounters s t \<and> sameTable s t
    | Inr t \<Rightarrow> sameCounters s t \<and> sameTable s t)"
  by (simp add: migrateComment_def sameCounters_def sameTable_def
      split: prod.splits sum.splits)

lemma migrateCommentsLoop_frame:
  "(case migrateCommentsLoop env cs n s of
      Inl (e, t) \<Rightarrow> sameCounters s t \<and> sameTable s t
    | Inr t \<Rightarrow> sameCounters s t \<and> sameTable s t)"
proof (induction cs arbitrary: s)
  case Nil
  show ?case by (simp add: sameCounters_def sameTable_def)
next
  case (Cons c cs)
  show ?case
  proof (cases "migrateComment env c n s")
    case (Inl thrown)
    with migrateComment_frame [where env=env and c=c and n=n and s=s] show ?thesis
      by (simp split: prod.splits)
  next
    case (Inr s1)
    let ?s2 = "s1\<lparr>stats := (stats s1)\<lparr>comments := comments (stats s1) + 1\<rparr>\<rparr>"
    from Inr migrateComment_frame [where env=env and c=c and n=n and s=s]
    have a: "sameCounters s ?s2 \<and> sameTable s ?s2"
      by (simp add: sameCounters_def sameTable_def)
    from Cons.IH [where s="?s2"] a Inr show ?thesis
      by (auto simp: sameCounters_def sameTable_def split: sum.splits prod.splits)
  qed
qed

lemma migrateComments_frame:
  "sameCounters s (migrateComments env i n s) \<and> sameTable s (migrateComments env i n s)"
proof (cases "getComments env (key i) (world s)")
  case (Pair r w)
  let ?s1 = "s\<lparr>calls := calls s @ [GetComments (key i)], world := w\<rparr>"
  let ?s2 = "?s1\<lparr>logged := logged ?s1 @ [DebugMigratingComments (length (projr r)) (key i)]\<rparr>"
  show ?thesis
  proof (cases r)
    case (Inl e)
    with Pair show ?thesis
      by (simp add: migrateComments_def tryMigrateComments_def sameCounters_def sameTable_def)
  next
    case (Inr cs)
    from migrateCommentsLoop_frame [where env=env and cs=cs and n=n and s="?s2"] Pair Inr show ?thesis
      by (auto simp: migrateComments_def tryMigrateComments_def sameCounters_def sameTable_def
          Let_def split: sum.splits prod.splits)
  qed
qed


lemma searchAndCreate_counters:
  "(case searchAndCreate env i ai s of
      Inl (e, t) \<Rightarrow> sameCounters s t
    | Inr t \<Rightarrow>
        processed (stats t) = processed (stats s) \<and> errors (stats t) = errors (stats s)
        \<and> ((created (stats t) = created (stats s) + 1 \<and> skipped (stats t) = skipped (stats s))
           \<or> (created (stats t) = created (stats s) \<and> skipped (stats t) = skipped (stats s) + 1)))"
proof (cases "findExistingIssue env (key i) (world s)")
  case (Pair r w)
  let ?s1 = "s\<lparr>calls := calls s @ [FindExistingIssue (key i)], world := w\<rparr>"
  show ?thesis
  proof (cases r)
    case (Inl e)
    with Pair show ?thesis
      by (simp add: searchAndCreate_def sameCounters_def Let_def)
  next
    case (Inr found)
    show ?thesis
    proof (cases found)
      case (Some existingIssue)
      with Pair Inr show ?thesis
        by (simp add: searchAndCreate_def Let_def)
    next
      case None
      show ?thesis
      proof (cases "dryRun env")
        case True
        with Pair Inr None show ?thesis
          by (simp add: searchAndCreate_def Let_def)
      next
        case False
        show ?thesis
        proof (cases "convertAndCreateIssue env i ai ?s1")
          case (Inl thrown)
          with convertAndCreateIssue_frame [where env=env and i=i and ai=ai and s="?s1"]
            Pair Inr None False
          show ?thesis
            by (auto simp: searchAndCreate_def sameCounters_def Let_def split: prod.splits)
        next
          case (Inr created')
          obtain g s2 where c: "created' = (g, s2)" by (cases created')
          let ?s3 = "s2\<lparr>mapping := AList.update (key i)
                                   (migratedEntry g (now env (world s2))) (mapping s2)\<rparr>"
          from convertAndCreateIssue_frame [where env=env and i=i and ai=ai and s="?s1"] Inr c
          have f1: "sameCounters ?s1 s2" by simp
          from migrateComments_frame [where env=env and i=i and n="number g" and s="?s3"]
          have f2: "sameCounters ?s3 (migrateComments env i (number g) ?s3)" by simp
          from f1 f2 Pair \<open>r = Inr found\<close> None False Inr c show ?thesis
            by (simp add: searchAndCreate_def sameCounters_def Let_def)
        qed
      qed
    qed
  qed
qed

lemma processIssue_counters:
  "processed (stats (processIssue env i ai s)) = processed (stats s) + 1
   \<and> ((created (stats (processIssue env i ai s)) = created (stats s) + 1
        \<and> skipped (stats (processIssue env i ai s)) = skipped (stats s)
        \<and> errors (stats (processIssue env i ai s)) = errors (stats s))
      \<or> (created (stats (processIssue env i ai s)) = created (stats s)
        \<and> skipped (stats (processIssue env i ai s)) = skipped (stats s) + 1
        \<and> errors (stats (processIssue env i ai s)) = errors (stats s))
      \<or> (created (stats (processIssue env i ai s)) = created (stats s)
        \<and> skipped (stats (processIssue env i ai s)) = skipped (stats s)
        \<and> errors (stats (processIssue env i ai s)) = errors (stats s) + 1))"
proof -
  let ?s1 = "s\<lparr>stats := (stats s)\<lparr>processed := processed (stats s) + 1\<rparr>\<rparr>"
  let ?s2 = "if hasStatus (mapping ?s1) (key i) ''error''
              then ?s1\<lparr>logged := logged ?s1
                        @ [InfoRetrying (key i) (entryErrorOf (mapping ?s1) (key i))]\<rparr>
              else ?s1"
  have c: "processed (stats ?s2) = processed (stats s) + 1" "created (stats ?s2) = created (stats s)"
    "skipped (stats ?s2) = skipped (stats s)" "errors (stats ?s2) = errors (stats s)"
    by simp_all
  show ?thesis
  proof (cases "hasStatus (mapping s) (key i) ''migrated'' \<or> hasStatus (mapping s) (key i) ''existing''")
    case True
    then show ?thesis
      by (auto simp: processIssue_def tryProcessIssue_def Let_def)
  next
    case False
    then have t: "tryProcessIssue env i ai s = searchAndCreate env i ai ?s2"
      by (simp add: tryProcessIssue_def Let_def)
    from searchAndCreate_counters [where env=env and i=i and ai=ai and s="?s2"] c t
    show ?thesis
      by (cases "searchAndCreate env i ai ?s2")
         (auto simp: processIssue_def sameCounters_def split: prod.splits)
  qed
qed

lemma processBatchIssues_counters:
  "processed (stats (processBatchIssues env sm items s)) = processed (stats s) + length items
   \<and> created (stats (processBatchIssues env sm items s))
       + skipped (stats (processBatchIssues env sm items s))
       + errors (stats (processBatchIssues env sm items s))
     = created (stats s) + skipped (stats s) + errors (stats s) + length items"
proof (induction items arbitrary: s)
  case Nil
  show ?case by simp
next
  case (Cons i items)
  from processIssue_counters [where env=env and i=i and ai="sm (key i)" and s=s]
    Cons.IH [where s="processIssue env i (sm (key i)) s"]
  show ?case by auto
qed

section \<open>Run statistics\<close>

text \<open>
  C10. Every call of \<open>processIssue\<close> adds 1 to \<open>processed\<close> and 1 to exactly one of
  \<open>created\<close>, \<open>skipped\<close> and \<open>errors\<close>, leaving the other two unchanged; so after any
  sequence of issues processed from all-zero statistics, \<open>processed\<close> is the number of issues
  and equals \<open>created + skipped + errors\<close>.
\<close>

theorem processIssue_counts_each_issue_once:
  "processed (stats (processIssue env i ai s)) = processed (stats s) + 1
   \<and> ((created (stats (processIssue env i ai s)) = created (stats s) + 1
        \<and> skipped (stats (processIssue env i ai s)) = skipped (stats s)
        \<and> errors (stats (processIssue env i ai s)) = errors (stats s))
      \<or> (created (stats (processIssue env i ai s)) = created (stats s)
        \<and> skipped (stats (processIssue env i ai s)) = skipped (stats s) + 1
        \<and> errors (stats (processIssue env i ai s)) = errors (stats s))
      \<or> (created (stats (processIssue env i ai s)) = created (stats s)
        \<and> skipped (stats (processIssue env i ai s)) = skipped (stats s)
        \<and> errors (stats (processIssue env i ai s)) = errors (stats s) + 1))
   \<and> processed (stats (processBatchIssues env sm items (s\<lparr>stats := zeroStats\<rparr>))) = length items
   \<and> processed (stats (processBatchIssues env sm items (s\<lparr>stats := zeroStats\<rparr>)))
       = created (stats (processBatchIssues env sm items (s\<lparr>stats := zeroStats\<rparr>)))
         + skipped (stats (processBatchIssues env sm items (s\<lparr>stats := zeroStats\<rparr>)))
         + errors (stats (processBatchIssues env sm items (s\<lparr>stats := zeroStats\<rparr>)))"
proof -
  from processBatchIssues_counters [where env=env and sm=sm and items=items
      and s="s\<lparr>stats := zeroStats\<rparr>"]
  have run: "processed (stats (processBatchIssues env sm items (s\<lparr>stats := zeroStats\<rparr>))) = length items"
    "processed (stats (processBatchIssues env sm items (s\<lparr>stats := zeroStats\<rparr>)))
       = created (stats (processBatchIssues env sm items (s\<lparr>stats := zeroStats\<rparr>)))
         + skipped (stats (processBatchIssues env sm items (s\<lparr>stats := zeroStats\<rparr>)))
         + errors (stats (processBatchIssues env sm items (s\<lparr>stats := zeroStats\<rparr>)))"
    by (simp_all add: zeroStats_def)
  from processIssue_counters [where env=env and i=i and ai=ai and s=s] run
  show ?thesis by blast
qed

section \<open>Idempotency\<close>

text \<open>
  C1, as the code has it. For an issue whose table entry has status migrated or existing,
  \<open>processIssue\<close> makes no call to either client, leaves the outside world, the table and
  the written copies as they are, and adds 1 to \<open>processed\<close> and 1 to \<open>skipped\<close>; the other
  counters keep their values.
\<close>

theorem processIssue_already_processed:
  assumes "hasStatus (mapping s) (key i) ''migrated'' \<or> hasStatus (mapping s) (key i) ''existing''"
  shows "calls (processIssue env i ai s) = calls s
         \<and> world (processIssue env i ai s) = world s
         \<and> mapping (processIssue env i ai s) = mapping s
         \<and> saved (processIssue env i ai s) = saved s
         \<and> stats (processIssue env i ai s) =
             (stats s)\<lparr>processed := processed (stats s) + 1, skipped := skipped (stats s) + 1\<rparr>"
  using assms by (auto simp: processIssue_def tryProcessIssue_def Let_def)

theorem processIssue_already_processed_witness:
  "calls (processIssue demoEnv issueX1 None alreadyMigrated) = []
   \<and> mapping (processIssue demoEnv issueX1 None alreadyMigrated) = mapping alreadyMigrated
   \<and> stats (processIssue demoEnv issueX1 None alreadyMigrated) =
       \<lparr>processed = 1, created = 0, skipped = 1, errors = 0, comments = 0, attachments = 0\<rparr>"
proof -
  have h: "hasStatus (mapping alreadyMigrated) (key issueX1) ''migrated''
           \<or> hasStatus (mapping alreadyMigrated) (key issueX1) ''existing''"
    by (simp add: hasStatus_def alreadyMigrated_def issueX1_def migratedEntry_def newMigrator_def)
  from processIssue_already_processed [OF h, where env=demoEnv and ai=None]
  show ?thesis
    by (simp add: alreadyMigrated_def newMigrator_def zeroStats_def)
qed

text \<open>
  The statistics delta of a skipped issue is not "skipped 1, every other counter 0":
  \<open>processed\<close> moves too.
\<close>

theorem processIssue_skip_delta_counterexample:
  "stats alreadyMigrated = zeroStats
   \<and> stats (processIssue demoEnv issueX1 None alreadyMigrated) \<noteq> zeroStats\<lparr>skipped := 1\<rparr>
   \<and> processed (stats (processIssue demoEnv issueX1 None alreadyMigrated)) = 1"
  by (simp add: processIssue_def tryProcessIssue_def Let_def hasStatus_def alreadyMigrated_def
      issueX1_def migratedEntry_def newMigrator_def zeroStats_def)

section \<open>Dry run\<close>

text \<open>
  C7. In dry-run mode, for an issue without a table entry for which the search finds
  nothing, \<open>processIssue\<close> adds 1 to \<open>created\<close> (and to \<open>processed\<close>), makes the search and
  no other call, and leaves the table and its written copies unchanged.
\<close>

theorem processIssue_dry_run_would_create:
  assumes "map_of (mapping s) (key i) = None"
    and "findExistingIssue env (key i) (world s) = (Inr None, w)"
    and "dryRun env"
  shows "stats (processIssue env i ai s) =
           (stats s)\<lparr>processed := processed (stats s) + 1, created := created (stats s) + 1\<rparr>
         \<and> calls (processIssue env i ai s) = calls s @ [FindExistingIssue (key i)]
         \<and> filter isDestinationWrite [FindExistingIssue (key i)] = []
         \<and> mapping (processIssue env i ai s) = mapping s
         \<and> map_of (mapping (processIssue env i ai s)) (key i) = None
         \<and> saved (processIssue env i ai s) = saved s"
  using assms
  by (simp add: processIssue_def tryProcessIssue_def searchAndCreate_def hasStatus_def Let_def)

theorem processIssue_dry_run_would_create_witness:
  "stats (processIssue (demoEnv\<lparr>dryRun := True\<rparr>) issueX1 None (newMigrator 0)) =
     \<lparr>processed = 1, created = 1, skipped = 0, errors = 0, comments = 0, attachments = 0\<rparr>
   \<and> calls (processIssue (demoEnv\<lparr>dryRun := True\<rparr>) issueX1 None (newMigrator 0)) =
       [FindExistingIssue ''X-1'']
   \<and> mapping (processIssue (demoEnv\<lparr>dryRun := True\<rparr>) issueX1 None (newMigrator 0)) = []"
proof -
  have h: "map_of (mapping (newMigrator (0::nat))) (key issueX1) = None"
    "findExistingIssue (demoEnv\<lparr>dryRun := True\<rparr>) (key issueX1) (world (newMigrator (0::nat)))
       = (Inr None, 0)"
    "dryRun (demoEnv\<lparr>dryRun := True\<rparr>)"
    by (simp_all add: newMigrator_def demoEnv_def)
  from processIssue_dry_run_would_create [OF h, where ai=None]
  show ?thesis
    by (simp add: newMigrator_def zeroStats_def issueX1_def)
qed

section \<open>Comment replication\<close>

lemma convertAndCreateIssue_success:
  assumes "buildGitHubBody env i ai (world t) = (Inr b, w2)"
    and "mapStatusOf env (statusName i) = Inr st"
    and "createIssue env \<lparr>title = buildGitHubTitle env i, body = b, labels = mapLabels env i,
            state = st\<rparr> (ensureLabelsExist env (mapLabels env i) w2) = (Inr g, w3)"
  shows "\<exists>t'. convertAndCreateIssue env i ai t = Inr (g, t') \<and> world t' = w3"
  using assms by (simp add: convertAndCreateIssue_def Let_def)

text \<open>
  C5, as the code has it. Once the destination issue is created, whatever happens while the
  comments are replicated, the table entry of the issue is the migrated record, \<open>errors\<close> is
  not incremented and \<open>created\<close> is. An exception thrown during the replication is caught by
  the one handler around the whole loop: it is logged once, for the issue, and the comments
  after the failing one are not replicated.
\<close>

theorem comment_failure_keeps_migrated:
  assumes nm: "\<not> hasStatus (mapping s) (key i) ''migrated''"
    and ne: "\<not> hasStatus (mapping s) (key i) ''existing''"
    and fi: "findExistingIssue env (key i) (world s) = (Inr None, w1)"
    and nd: "\<not> dryRun env"
    and bb: "buildGitHubBody env i ai w1 = (Inr b, w2)"
    and ms: "mapStatusOf env (statusName i) = Inr st"
    and ci: "createIssue env \<lparr>title = buildGitHubTitle env i, body = b, labels = mapLabels env i,
            state = st\<rparr> (ensureLabelsExist env (mapLabels env i) w2) = (Inr g, w3)"
  shows "map_of (mapping (processIssue env i ai s)) (key i) = Some (migratedEntry g (now env w3))
         \<and> errors (stats (processIssue env i ai s)) = errors (stats s)
         \<and> created (stats (processIssue env i ai s)) = created (stats s) + 1
         \<and> (tryMigrateComments env i n t = Inl (e, t1) \<longrightarrow>
              migrateComments env i n t =
                t1\<lparr>logged := logged t1 @ [WarnCommentsFailed (key i) (message e)]\<rparr>)
         \<and> (migrateComment env c n t = Inl (e, t1) \<longrightarrow>
              migrateCommentsLoop env (c # rest) n t = Inl (e, t1))"
proof -
  let ?s1 = "s\<lparr>stats := (stats s)\<lparr>processed := processed (stats s) + 1\<rparr>\<rparr>"
  let ?sA = "if hasStatus (mapping ?s1) (key i) ''error''
              then ?s1\<lparr>logged := logged ?s1
                        @ [InfoRetrying (key i) (entryErrorOf (mapping ?s1) (key i))]\<rparr>
              else ?s1"
  let ?sB = "?sA\<lparr>calls := calls ?sA @ [FindExistingIssue (key i)], world := w1\<rparr>"
  have t: "tryProcessIssue env i ai s = searchAndCreate env i ai ?sA"
    using nm ne by (simp add: tryProcessIssue_def Let_def)
  have wB: "world ?sB = w1" by simp
  from convertAndCreateIssue_success [where t="?sB", OF _ ms ci] bb wB
  obtain s2 where c: "convertAndCreateIssue env i ai ?sB = Inr (g, s2)" and w: "world s2 = w3"
    by auto
  from convertAndCreateIssue_frame [where env=env and i=i and ai=ai and s="?sB"] c
  have f1: "sameCounters ?sB s2" by simp
  let ?s3 = "s2\<lparr>mapping := AList.update (key i) (migratedEntry g (now env (world s2))) (mapping s2)\<rparr>"
  let ?s4 = "migrateComments env i (number g) ?s3"
  from migrateComments_frame [where env=env and i=i and n="number g" and s="?s3"]
  have f2: "sameCounters ?s3 ?s4" "sameTable ?s3 ?s4" by simp_all
  have fA: "findExistingIssue env (key i) (world ?sA) = (Inr None, w1)"
    using fi by simp
  have r: "searchAndCreate env i ai ?sA =
      Inr (?s4\<lparr>stats := (stats ?s4)\<lparr>created := created (stats ?s4) + 1\<rparr>,
               logged := logged ?s4 @ [SuccessMigrated (key i) (number g)]\<rparr>)"
    unfolding searchAndCreate_def Let_def using fA nd c by simp
  have p: "processIssue env i ai s =
      ?s4\<lparr>stats := (stats ?s4)\<lparr>created := created (stats ?s4) + 1\<rparr>,
               logged := logged ?s4 @ [SuccessMigrated (key i) (number g)]\<rparr>"
    by (simp only: processIssue_def t r sum.case)
  have m: "map_of (mapping (processIssue env i ai s)) (key i) = Some (migratedEntry g (now env w3))"
    using f2(2) w by (simp add: p sameTable_def update_Some_unfold)
  have e: "errors (stats (processIssue env i ai s)) = errors (stats s)"
    "created (stats (processIssue env i ai s)) = created (stats s) + 1"
    using f1 f2(1) by (simp_all add: p sameCounters_def)
  have l1: "tryMigrateComments env i n t = Inl (e, t1) \<longrightarrow>
              migrateComments env i n t =
                t1\<lparr>logged := logged t1 @ [WarnCommentsFailed (key i) (message e)]\<rparr>"
    by (simp add: migrateComments_def)
  have l2: "migrateComment env c n t = Inl (e, t1) \<longrightarrow>
              migrateCommentsLoop env (c # rest) n t = Inl (e, t1)"
    by simp
  from m e l1 l2 show ?thesis by blast
qed

theorem comment_failure_keeps_migrated_witness:
  "map_of (mapping (processIssue commentsFailEnv issueX1 None (newMigrator 6))) ''X-1''
     = Some (migratedEntry \<lparr>number = 7, html_url = ''https://github.com/o/r/issues''\<rparr>
               ''2024-01-01T00:00:00.000Z'')
   \<and> errors (stats (processIssue commentsFailEnv issueX1 None (newMigrator 6))) = 0
   \<and> created (stats (processIssue commentsFailEnv issueX1 None (newMigrator 6))) = 1"
proof -
  let ?s = "newMigrator 6 :: nat migrator"
  have nm: "\<not> hasStatus (mapping ?s) (key issueX1) ''migrated''"
    and ne: "\<not> hasStatus (mapping ?s) (key issueX1) ''existing''"
    by (simp_all add: hasStatus_def newMigrator_def)
  have fi: "findExistingIssue commentsFailEnv (key issueX1) (world ?s) = (Inr None, 6)"
    by (simp add: commentsFailEnv_def demoEnv_def newMigrator_def)
  have nd: "\<not> dryRun commentsFailEnv"
    by (simp add: commentsFailEnv_def demoEnv_def)
  have bb: "buildGitHubBody commentsFailEnv issueX1 None 6 = (Inr ''body'', 6)"
    by (simp add: commentsFailEnv_def demoEnv_def)
  have ms: "mapStatusOf commentsFailEnv (statusName issueX1) = Inr (JsString ''open'')"
    by (simp add: mapStatusOf_def mapStatus_To_Do issueX1_def
        commentsFailEnv_def demoEnv_def)
  have ci: "createIssue commentsFailEnv
              \<lparr>title = buildGitHubTitle commentsFailEnv issueX1, body = ''body'',
               labels = mapLabels commentsFailEnv issueX1, state = JsString ''open''\<rparr>
              (ensureLabelsExist commentsFailEnv (mapLabels commentsFailEnv issueX1) 6)
            = (Inr \<lparr>number = 7, html_url = ''https://github.com/o/r/issues''\<rparr>, 7)"
    by (simp add: commentsFailEnv_def demoEnv_def)
  from comment_failure_keeps_migrated [OF nm ne fi nd bb ms ci]
  show ?thesis
    by (simp add: issueX1_def newMigrator_def zeroStats_def commentsFailEnv_def demoEnv_def)
qed

text \<open>
  The handler is not per comment: the first of two comments fails, the second (which would
  have succeeded) is never sent, no comment is counted, and one warning is logged.
\<close>

theorem comment_failure_counterexample:
  "calls (processIssue commentsFailEnv issueX1 None (newMigrator 6)) =
     [FindExistingIssue ''X-1'', BuildGitHubBody ''X-1'',
      EnsureLabelsExist [''migrated-from-jira''], CreateIssue x1IssueData,
      GetComments ''X-1'', CreateComment 7 ''first'']
   \<and> logged (processIssue commentsFailEnv issueX1 None (newMigrator 6)) =
     [DebugMigratingComments 2 ''X-1'',
      WarnCommentsFailed ''X-1'' (Some ''Internal Server Error''),
      SuccessMigrated ''X-1'' 7]
   \<and> comments (stats (processIssue commentsFailEnv issueX1 None (newMigrator 6))) = 0"
  by (simp add: processIssue_def tryProcessIssue_def searchAndCreate_def convertAndCreateIssue_def
      migrateComments_def tryMigrateComments_def migrateComment_def mapStatusOf_def mapStatus_To_Do
      hasStatus_def Let_def commentsFailEnv_def demoEnv_def
      issueX1_def newMigrator_def zeroStats_def serverError_def migratedEntry_def x1IssueData_def)

section \<open>Per-item failures\<close>














section \<open>Checkpoints\<close>

lemma chunkArray_23_by_10:
  assumes "length xs = 23"
  shows "chunkArray xs 10 = Some [take 10 xs, take 10 (drop 10 xs), take 10 (drop 20 xs)]"
  unfolding chunkArray_def
  apply (subst chunkArray_loop.simps, simp add: assms)
  apply (subst chunkArray_loop.simps, simp add: assms)
  apply (subst chunkArray_loop.simps, simp add: assms)
  apply (subst chunkArray_loop.simps, simp add: assms)
  done

lemma searchAndCreate_table:
  "(case searchAndCreate env i ai s of
      Inl (e, t) \<Rightarrow> sameTable s t
    | Inr t \<Rightarrow>
        saved t = saved s
        \<and> ((\<exists>entry. mapping t = AList.update (key i) entry (mapping s))
           \<or> dryRun env \<and> mapping t = mapping s))"
proof (cases "findExistingIssue env (key i) (world s)")
  case (Pair r w)
  let ?s1 = "s\<lparr>calls := calls s @ [FindExistingIssue (key i)], world := w\<rparr>"
  show ?thesis
  proof (cases "\<exists>e. r = Inl e \<or> (\<exists>x. r = Inr (Some x)) \<or> dryRun env")
    case True
    with Pair show ?thesis
      by (cases r) (auto simp: searchAndCreate_def Let_def sameTable_def split: option.splits)
  next
    case False
    then have r: "r = Inr None" and nd: "\<not> dryRun env"
      by (cases r; auto)+
    show ?thesis
    proof (cases "convertAndCreateIssue env i ai ?s1")
      case (Inl thrown)
      with convertAndCreateIssue_frame [where env=env and i=i and ai=ai and s="?s1"] Pair r nd
      show ?thesis
        by (auto simp: searchAndCreate_def Let_def sameTable_def split: prod.splits)
    next
      case (Inr created')
      obtain g s2 where c: "created' = (g, s2)" by (cases created')
      let ?s3 = "s2\<lparr>mapping := AList.update (key i)
                               (migratedEntry g (now env (world s2))) (mapping s2)\<rparr>"
      from convertAndCreateIssue_frame [where env=env and i=i and ai=ai and s="?s1"] Inr c
      have x: "mapping s2 = mapping s" "saved s2 = saved s" by (simp_all add: sameTable_def)
      from migrateComments_frame [where env=env and i=i and n="number g" and s="?s3"]
      have y: "mapping (migrateComments env i (number g) ?s3) = mapping ?s3"
        "saved (migrateComments env i (number g) ?s3) = saved ?s3"
        by (simp_all add: sameTable_def)
      from x y Pair r nd Inr c show ?thesis
        by (auto simp: searchAndCreate_def Let_def)
    qed
  qed
qed

lemma processIssue_table:
  "saved (processIssue env i ai s) = saved s
   \<and> ((\<exists>entry. mapping (processIssue env i ai s) = AList.update (key i) entry (mapping s))
      \<or> mapping (processIssue env i ai s) = mapping s
        \<and> (dryRun env \<or> key i \<in> set (map fst (mapping s))))"
proof (cases "hasStatus (mapping s) (key i) ''migrated'' \<or> hasStatus (mapping s) (key i) ''existing''")
  case True
  then have "key i \<in> set (map fst (mapping s))"
    by (auto simp: hasStatus_def split: option.splits dest!: map_of_SomeD intro: rev_image_eqI)
  with True show ?thesis
    by (auto simp: processIssue_def tryProcessIssue_def Let_def)
next
  case False
  let ?s0 = "s\<lparr>stats := (stats s)\<lparr>processed := processed (stats s) + 1\<rparr>\<rparr>"
  let ?sA = "if hasStatus (mapping ?s0) (key i) ''error''
              then ?s0\<lparr>logged := logged ?s0
                        @ [InfoRetrying (key i) (entryErrorOf (mapping ?s0) (key i))]\<rparr>
              else ?s0"
  from False have t: "tryProcessIssue env i ai s = searchAndCreate env i ai ?sA"
    by (simp add: tryProcessIssue_def Let_def)
  have mA: "mapping ?sA = mapping s" "saved ?sA = saved s" by simp_all
  show ?thesis
  proof (cases "searchAndCreate env i ai ?sA")
    case (Inl thrown)
    obtain e s' where th: "thrown = (e, s')" by (cases thrown)
    from searchAndCreate_table [where env=env and i=i and ai=ai and s="?sA"] Inl th mA
    have f: "mapping s' = mapping s" "saved s' = saved s" by (simp_all add: sameTable_def)
    have p: "processIssue env i ai s =
        s'\<lparr>mapping := AList.update (key i) (errorEntry e (now env (world s'))) (mapping s'),
           stats := (stats s')\<lparr>errors := errors (stats s') + 1\<rparr>,
           logged := logged s' @ [ErrorFailedToMigrate (key i) (message e), ErrorStackTrace (stack e)]\<rparr>"
      by (simp only: processIssue_def t Inl th sum.case prod.case)
    show ?thesis unfolding p using f by auto
  next
    case (Inr s')
    from searchAndCreate_table [where env=env and i=i and ai=ai and s="?sA"] Inr
    have f: "saved s' = saved ?sA"
      "(\<exists>entry. mapping s' = AList.update (key i) entry (mapping ?sA))
           \<or> dryRun env \<and> mapping s' = mapping ?sA" by simp_all
    have p: "processIssue env i ai s = s'"
      by (simp only: processIssue_def t Inr sum.case)
    show ?thesis unfolding p using f unfolding mA by auto
  qed
qed

lemma processIssue_keys:
  assumes "\<not> dryRun env"
  shows "map fst (mapping (processIssue env i ai s)) =
           (if key i \<in> set (map fst (mapping s)) then map fst (mapping s)
            else map fst (mapping s) @ [key i])"
  using processIssue_table [where env=env and i=i and ai=ai and s=s] assms
  by (force simp: update_keys)

lemma processBatchIssues_saved:
  "saved (processBatchIssues env sm items s) = saved s"
  by (induction items arbitrary: s) (simp_all add: processIssue_table)

lemma processBatchIssues_keys:
  assumes "\<not> dryRun env" and "distinct (map key items)"
    and "set (map key items) \<inter> set (map fst (mapping s)) = {}"
  shows "map fst (mapping (processBatchIssues env sm items s)) = map fst (mapping s) @ map key items"
  using assms(2,3)
proof (induction items arbitrary: s)
  case Nil
  show ?case by simp
next
  case (Cons i items)
  let ?s1 = "processIssue env i (sm (key i)) s"
  from Cons.prems have n: "key i \<notin> set (map fst (mapping s))" by auto
  from processIssue_keys [OF assms(1), where i=i and ai="sm (key i)" and s=s] n
  have k: "map fst (mapping ?s1) = map fst (mapping s) @ [key i]" by simp
  from Cons.prems k have d: "distinct (map key items)"
    "set (map key items) \<inter> set (map fst (mapping ?s1)) = {}" by auto
  from Cons.IH [OF d] k show ?case by simp
qed

lemma saveMapping_ok:
  assumes "\<forall>m w. \<exists>w'. writeJsonFile env m w = (Inr (), w')"
  shows "\<exists>w'. saveMapping env s = Inr (s\<lparr>saved := saved s @ [mapping s], world := w'\<rparr>)"
proof -
  from assms obtain w' where "writeJsonFile env (mapping s) (world s) = (Inr (), w')" by blast
  then have "saveMapping env s = Inr (s\<lparr>saved := saved s @ [mapping s], world := w'\<rparr>)"
    by (simp add: saveMapping_def)
  then show ?thesis ..
qed

lemma processBatches_writes:
  assumes wr: "\<forall>m w. \<exists>w'. writeJsonFile env m w = (Inr (), w')"
  shows "\<exists>s'. processBatches env sm n j bs s = Inr s'
           \<and> length (saved s') = length (saved s) + length bs
           \<and> (bs \<noteq> [] \<longrightarrow> last (saved s') = mapping s')
           \<and> (bs = [] \<longrightarrow> s' = s)"
proof (induction bs arbitrary: s j)
  case Nil
  show ?case by simp
next
  case (Cons b bs)
  let ?s1 = "processBatchIssues env sm b s"
  from saveMapping_ok [OF wr, where s="?s1"]
  obtain w' where sv: "saveMapping env ?s1 = Inr (?s1\<lparr>saved := saved ?s1 @ [mapping ?s1], world := w'\<rparr>)"
    by blast
  let ?s2 = "?s1\<lparr>saved := saved ?s1 @ [mapping ?s1], world := w'\<rparr>"
  let ?s3 = "?s2\<lparr>logged := logged ?s2 @ [InfoCompletedBatch (j + 1) n]\<rparr>"
  from Cons.IH [where s="?s3" and j="j + 1"]
  obtain s' where r: "processBatches env sm n (j + 1) bs ?s3 = Inr s'"
    "length (saved s') = length (saved ?s3) + length bs"
    "bs \<noteq> [] \<longrightarrow> last (saved s') = mapping s'" "bs = [] \<longrightarrow> s' = ?s3"
    by blast
  have p: "processBatches env sm n j (b # bs) s = Inr s'"
    using sv r(1) by simp
  have l: "length (saved s') = length (saved s) + length (b # bs)"
    using r(2) by (simp add: processBatchIssues_saved)
  have m: "last (saved s') = mapping s'"
    using r(3,4) by (cases "bs = []") simp_all
  from p l m show ?case by simp
qed

lemma processBatches_keys:
  assumes wr: "\<forall>m w. \<exists>w'. writeJsonFile env m w = (Inr (), w')"
    and nd: "\<not> dryRun env"
    and "distinct (map key (concat bs))"
    and "set (map key (concat bs)) \<inter> set (map fst (mapping s)) = {}"
  shows "\<exists>s'. processBatches env sm n j bs s = Inr s'
           \<and> map (map fst) (saved s') = map (map fst) (saved s) @ keysAfter (map fst (mapping s)) bs"
  using assms(3,4)
proof (induction bs arbitrary: s j)
  case Nil
  show ?case by simp
next
  case (Cons b bs)
  let ?s1 = "processBatchIssues env sm b s"
  from Cons.prems have db: "distinct (map key b)"
    "set (map key b) \<inter> set (map fst (mapping s)) = {}" by auto
  from processBatchIssues_keys [OF nd db, where sm=sm]
  have k: "map fst (mapping ?s1) = map fst (mapping s) @ map key b" .
  from saveMapping_ok [OF wr, where s="?s1"]
  obtain w' where sv: "saveMapping env ?s1 = Inr (?s1\<lparr>saved := saved ?s1 @ [mapping ?s1], world := w'\<rparr>)"
    by blast
  let ?s2 = "?s1\<lparr>saved := saved ?s1 @ [mapping ?s1], world := w'\<rparr>"
  let ?s3 = "?s2\<lparr>logged := logged ?s2 @ [InfoCompletedBatch (j + 1) n]\<rparr>"
  from Cons.prems(1) have x: "distinct (map key (concat bs))"
    "set (map key b) \<inter> set (map key (concat bs)) = {}" by simp_all
  from Cons.prems(2) have y: "set (map key (concat bs)) \<inter> set (map fst (mapping s)) = {}"
    by auto
  have z: "set (map fst (mapping ?s3)) = set (map fst (mapping s)) \<union> set (map key b)"
  proof -
    have "map fst (mapping ?s3) = map fst (mapping s) @ map key b" using k by simp
    then have "set (map fst (mapping ?s3)) = set (map fst (mapping s) @ map key b)" by (rule arg_cong)
    then show ?thesis by (simp only: set_append)
  qed
  have d: "distinct (map key (concat bs))"
    "set (map key (concat bs)) \<inter> set (map fst (mapping ?s3)) = {}"
    using x y unfolding z by blast+
  from Cons.IH [OF d, where j="j + 1"]
  obtain s' where r: "processBatches env sm n (j + 1) bs ?s3 = Inr s'"
    "map (map fst) (saved s') = map (map fst) (saved ?s3) @ keysAfter (map fst (mapping ?s3)) bs"
    by blast
  have p: "processBatches env sm n j (b # bs) s = Inr s'"
    using sv r(1) by simp
  from p r(2) k show ?case
    by (simp add: processBatchIssues_saved)
qed

lemma batches_of_23:
  assumes "length (items :: 'a list) = 23"
  shows "take 10 items @ take 10 (drop 10 items) = take 20 items"
    and "take 10 items @ take 10 (drop 10 items) @ take 10 (drop 20 items) = items"
proof -
  have a: "take 20 items = take 10 items @ take 10 (drop 10 items)"
    using take_add [of 10 10 items] by simp
  have b: "take 10 (drop 20 items) = drop 20 items" using assms by simp
  show "take 10 items @ take 10 (drop 10 items) = take 20 items" using a by simp
  have "take 20 items @ drop 20 items = items" by (rule append_take_drop_id)
  then show "take 10 items @ take 10 (drop 10 items) @ take 10 (drop 20 items) = items"
    using a b by simp
qed

lemma migrate_23_items:
  assumes tc: "testConnections env w0 = (Inr (), w1)"
    and rd: "readJsonFile env w1 = (Inr loaded, w2)"
    and ft: "fetchJiraIssues env w2 = (Inr items, w3)"
    and gs: "generateSummaries env items (case loaded of Some m \<Rightarrow> m | None \<Rightarrow> []) w3
               = (Inr sm, w4)"
    and wr: "\<forall>m w. \<exists>w'. writeJsonFile env m w = (Inr (), w')"
    and len: "length items = 23"
    and bsz: "batchSize env = 10"
  shows "\<exists>s'. migrate env w0 = Some (Inr s')
           \<and> length (saved s') = 4
           \<and> saved s' ! 3 = saved s' ! 2
           \<and> (\<forall>s. \<exists>t. processIssuesBatch env items sm s = Some (Inr t)
                      \<and> length (saved t) = length (saved s) + 3)
           \<and> ((loaded = None \<or> loaded = Some []) \<and> distinct (map key items) \<and> \<not> dryRun env \<longrightarrow>
                map (map fst) (saved s')
                  = [map key (take 10 items), map key (take 20 items), map key items, map key items]
                \<and> length (saved s' ! 1) = 20)"
proof -
  let ?m0 = "case loaded of Some m \<Rightarrow> m | None \<Rightarrow> []"
  let ?bs = "[take 10 items, take 10 (drop 10 items), take 10 (drop 20 items)]"
  let ?s4 = "(newMigrator w0)\<lparr>mapping := ?m0, world := w4\<rparr>"
  have ch: "chunkArray items (batchSize env) = Some ?bs"
    unfolding bsz by (rule chunkArray_23_by_10 [OF len])
  have l3: "length ?bs = 3" by simp
  have pib: "processIssuesBatch env items sm s = Some (processBatches env sm 3 0 ?bs s)" for s
    by (simp only: processIssuesBatch_def ch option.case l3)
  have all: "\<forall>s. \<exists>t. processIssuesBatch env items sm s = Some (Inr t)
                      \<and> length (saved t) = length (saved s) + 3"
  proof
    fix s :: "'a migrator"
    from processBatches_writes [OF wr, where sm=sm and n=3 and j=0 and bs="?bs" and s=s]
    obtain t where "processBatches env sm 3 0 ?bs s = Inr t"
      "length (saved t) = length (saved s) + length ?bs" by blast
    then show "\<exists>t. processIssuesBatch env items sm s = Some (Inr t)
                      \<and> length (saved t) = length (saved s) + 3"
      unfolding pib l3 by blast
  qed
  from processBatches_writes [OF wr, where sm=sm and n=3 and j=0 and bs="?bs" and s="?s4"]
  obtain s5 where s5': "processBatches env sm 3 0 ?bs ?s4 = Inr s5"
    "length (saved s5) = length (saved ?s4) + length ?bs" "?bs \<noteq> [] \<longrightarrow> last (saved s5) = mapping s5"
    by blast
  have s5: "processBatches env sm 3 0 ?bs ?s4 = Inr s5"
    "length (saved s5) = 3" "last (saved s5) = mapping s5"
    using s5' by (simp_all add: newMigrator_def)
  have pib4: "processIssuesBatch env items sm ?s4 = Some (Inr s5)"
    by (simp only: pib s5(1))
  have new: "world (newMigrator w0) = w0" "mapping (newMigrator w0) = []"
    by (simp_all add: newMigrator_def)
  from saveMapping_ok [OF wr, where s=s5]
  obtain w' where sv: "saveMapping env s5 = Inr (s5\<lparr>saved := saved s5 @ [mapping s5], world := w'\<rparr>)"
    by blast
  let ?fin = "s5\<lparr>saved := saved s5 @ [mapping s5], world := w'\<rparr>"
  have ne: "length items \<noteq> 0" using len by simp
  have mg: "migrate env w0 = Some (Inr ?fin)"
    unfolding migrate_def Let_def
    using tc rd ft gs ne pib4 sv
    by (cases loaded) (simp_all add: newMigrator_def)
  have l4: "length (saved ?fin) = 4" using s5(2) by simp
  have l2: "saved s5 ! 2 = mapping s5"
    using s5(2,3) by (cases "saved s5" rule: rev_cases) (auto simp: nth_append)
  have rep: "saved ?fin ! 3 = saved ?fin ! 2"
    using s5(2) l2 by (simp add: nth_append)
  have keys: "map (map fst) (saved ?fin)
                  = [map key (take 10 items), map key (take 20 items), map key items, map key items]
                \<and> length (saved ?fin ! 1) = 20"
    if c: "(loaded = None \<or> loaded = Some []) \<and> distinct (map key items) \<and> \<not> dryRun env"
  proof -
    from c have m0: "?m0 = []" by auto
    have cc: "concat ?bs = items" using batches_of_23(2) [OF len] by simp
    have d: "distinct (map key (concat ?bs))"
      "set (map key (concat ?bs)) \<inter> set (map fst (mapping ?s4)) = {}"
      using c m0 unfolding cc by simp_all
    from c have nd: "\<not> dryRun env" by simp
    from processBatches_keys [OF wr nd d, where sm=sm and n=3 and j=0]
    obtain s5k where "processBatches env sm 3 0 ?bs ?s4 = Inr s5k"
      "map (map fst) (saved s5k) = map (map fst) (saved ?s4) @ keysAfter (map fst (mapping ?s4)) ?bs"
      by blast
    with s5(1) have k5: "map (map fst) (saved s5) = keysAfter (map fst (mapping ?s4)) ?bs"
      by (simp add: newMigrator_def)
    have e2: "map key (take 10 items) @ map key (take 10 (drop 10 items)) = map key (take 20 items)"
      using arg_cong [OF batches_of_23(1) [OF len], of "map key"] by (simp only: map_append)
    have e3: "map key (take 20 items) @ map key (take 10 (drop 20 items)) = map key items"
      using arg_cong [OF batches_of_23(2) [OF len], of "map key"]
      by (simp only: map_append append_assoc [symmetric] e2)
    have ks: "map fst (mapping ?s4) = []" using m0 by simp
    have k5': "map (map fst) (saved s5)
        = [map key (take 10 items), map key (take 20 items), map key items]"
      unfolding k5 ks by (simp only: keysAfter.simps append_Nil e2 e3)
    have km: "map fst (mapping s5) = map key items"
    proof -
      have "map fst (saved s5 ! 2) = map (map fst) (saved s5) ! 2"
        using s5(2) by simp
      then show ?thesis unfolding k5' l2 by simp
    qed
    have k1: "map fst (saved s5 ! 1) = map key (take 20 items)"
    proof -
      have "map fst (saved s5 ! 1) = map (map fst) (saved s5) ! 1"
        using s5(2) by simp
      then show ?thesis unfolding k5' by simp
    qed
    have "length (saved s5 ! 1) = length (map fst (saved s5 ! 1))" by simp
    also have "\<dots> = 20" unfolding k1 using len by simp
    finally have n20: "length (saved s5 ! 1) = 20" .
    show ?thesis
      using k5' km n20 s5(2) by (simp add: nth_append)
  qed
  have k: "(loaded = None \<or> loaded = Some []) \<and> distinct (map key items) \<and> \<not> dryRun env \<longrightarrow>
                map (map fst) (saved ?fin)
                  = [map key (take 10 items), map key (take 20 items), map key items, map key items]
                \<and> length (saved ?fin ! 1) = 20"
    using keys by (rule impI)
  show ?thesis
    by (rule exI [of _ "?fin"]) (intro conjI mg l4 rep all k)
qed

lemma runEnv_facts:
  "testConnections runEnv 0 = (Inr (), 0)"
  "readJsonFile runEnv 0 = (Inr None, 0)"
  "fetchJiraIssues runEnv 0 = (Inr demoIssues, 0)"
  "generateSummaries runEnv demoIssues (case None of Some m \<Rightarrow> m | None \<Rightarrow> []) 0
     = (Inr Map.empty, 0)"
  "\<forall>m w. \<exists>w'. writeJsonFile runEnv m w = (Inr (), w')"
  "length demoIssues = 23"
  "batchSize runEnv = 10"
  "\<not> dryRun runEnv"
  by (simp_all add: runEnv_def demoEnv_def demoIssues_def)

lemma demoIssues_distinct: "distinct (map key demoIssues)"
  unfolding demoIssues_def demoIssue_def by code_simp

text \<open>
  C3, as the code has it. With 23 issues, batches of 10 and file writes that succeed,
  \<open>processIssuesBatch\<close> writes the table 3 times, after the batches of 10, 10 and 3 issues, and
  \<open>migrate\<close> then writes it once more: the run makes 4 writes, the last repeating the third.
  When the run starts without a table, the keys of the issues are distinct and dry-run is off,
  the writes hold the records of the first 10, the first 20, all 23 and all 23 issues; the
  second write holds exactly 20 records.
\<close>

theorem migrate_writes_after_each_batch_and_at_end:
  assumes "testConnections env w0 = (Inr (), w1)"
    and "readJsonFile env w1 = (Inr loaded, w2)"
    and "fetchJiraIssues env w2 = (Inr items, w3)"
    and "generateSummaries env items (case loaded of Some m \<Rightarrow> m | None \<Rightarrow> []) w3
               = (Inr sm, w4)"
    and "\<forall>m w. \<exists>w'. writeJsonFile env m w = (Inr (), w')"
    and "length items = 23"
    and "batchSize env = 10"
  shows "\<exists>s'. migrate env w0 = Some (Inr s')
           \<and> length (saved s') = 4
           \<and> saved s' ! 3 = saved s' ! 2
           \<and> (\<forall>s. \<exists>t. processIssuesBatch env items sm s = Some (Inr t)
                      \<and> length (saved t) = length (saved s) + 3)
           \<and> ((loaded = None \<or> loaded = Some []) \<and> distinct (map key items) \<and> \<not> dryRun env \<longrightarrow>
                map (map fst) (saved s')
                  = [map key (take 10 items), map key (take 20 items), map key items, map key items]
                \<and> length (saved s' ! 1) = 20)"
  using assms by (rule migrate_23_items)

theorem migrate_writes_after_each_batch_and_at_end_witness:
  "\<exists>s'. migrate runEnv 0 = Some (Inr s')
      \<and> length (saved s') = 4
      \<and> saved s' ! 3 = saved s' ! 2
      \<and> length (saved s' ! 1) = 20"
proof -
  from migrate_writes_after_each_batch_and_at_end
         [OF runEnv_facts(1) runEnv_facts(2) runEnv_facts(3) runEnv_facts(4) runEnv_facts(5)
             runEnv_facts(6) runEnv_facts(7)]
  obtain s' where r: "migrate runEnv 0 = Some (Inr s')" "length (saved s') = 4"
    "saved s' ! 3 = saved s' ! 2"
    "((None :: mapping_table option) = None \<or> (None :: mapping_table option) = Some [])
       \<and> distinct (map key demoIssues) \<and> \<not> dryRun runEnv \<longrightarrow>
       map (map fst) (saved s')
         = [map key (take 10 demoIssues), map key (take 20 demoIssues), map key demoIssues,
            map key demoIssues]
       \<and> length (saved s' ! 1) = 20"
    by (elim exE conjE) (rule that)
  from r(4) demoIssues_distinct runEnv_facts(8) have "length (saved s' ! 1) = 20" by simp
  with r(1,2,3) show ?thesis by (intro exI [of _ s'] conjI)
qed

text \<open>A run over 23 issues in batches of 10 writes the table 4 times, not 3.\<close>

theorem migrate_writes_counterexample:
  "writesOfRun (migrate runEnv 0) = Some 4 \<and> writesOfRun (migrate runEnv 0) \<noteq> Some 3"
proof -
  from migrate_23_items
         [OF runEnv_facts(1) runEnv_facts(2) runEnv_facts(3) runEnv_facts(4) runEnv_facts(5)
             runEnv_facts(6) runEnv_facts(7)]
  obtain s' where "migrate runEnv 0 = Some (Inr s')" "length (saved s') = 4"
    by (elim exE conjE) (rule that)
  then show ?thesis by (simp add: writesOfRun_def)
qed

section \<open>Failures do not stop the batch or the run\<close>
















end
